theory Spec2Isabelle
  imports Main
begin

section \<open>Data model\<close>

text \<open>
  Modelled from the spec: the declaration of \<open>ScalarType\<close> is not part of the sources at
  hand. The spec speaks of a fixed enumeration of numeric kinds with a reduced-precision
  float kind; the kernel's dispatch macros name the family REALHB (the real types, Half and
  Bool), which is the enumeration taken here:
  uint8, int8, int16, int32, int64, half, float32, float64, bool.
\<close>

datatype ScalarType =
  ByteT | CharT | ShortT | IntT | LongT | HalfT | FloatT | DoubleT | BoolT

text \<open>
  A tensor: its extents (outer to inner), its element type tag, and its element buffer in
  row-major order. An extent is a 32-bit integer in the source and never negative; the
  kernel only compares extents, so they are natural numbers here. Elements are values of an arbitrary type \<open>'v\<close>; what a multiplication or a
  conversion does to them is left to the collaborators below, so every theorem holds for
  any element arithmetic.
\<close>

record 'v tensor =
  sizes :: "nat list"
  scalar_type :: ScalarType
  data :: "'v list"

definition numel :: "'v tensor \<Rightarrow> nat" where
  "numel t = prod_list (sizes t)"

definition dim :: "'v tensor \<Rightarrow> nat" where
  "dim t = length (sizes t)"

text \<open>A tensor is well formed when its buffer holds exactly \<open>numel\<close> elements.\<close>

definition wf_tensor :: "'v tensor \<Rightarrow> bool" where
  "wf_tensor t = (length (data t) = numel t)"

section \<open>Shape classifier\<close>

text \<open>
  \<open>arrayref_begin_ignoring_leading_1s\<close>: \<open>std::find_if\<close> for the first extent that is not 1.
  The source returns a pointer into the array; the model returns its offset from
  \<open>arr.begin()\<close>, which is \<open>length arr\<close> when the search reaches \<open>arr.end()\<close>.
\<close>

fun arrayref_begin_ignoring_leading_1s :: "nat list \<Rightarrow> nat" where
  "arrayref_begin_ignoring_leading_1s [] = 0"
| "arrayref_begin_ignoring_leading_1s (x # xs) =
     (if x \<noteq> 1 then 0 else Suc (arrayref_begin_ignoring_leading_1s xs))"

text \<open>\<open>std::equal(first1, last1, first2)\<close> on offsets into two arrays.\<close>

definition std_equal :: "nat list \<Rightarrow> nat \<Rightarrow> nat \<Rightarrow> nat list \<Rightarrow> nat \<Rightarrow> bool" where
  "std_equal xs first1 last1 ys first2 =
     list_all (\<lambda>i. xs ! (first1 + i) = ys ! (first2 + i)) [0..<last1 - first1]"

definition sizes_match_ignoring_leading_1s :: "nat list \<Rightarrow> nat list \<Rightarrow> bool" where
  "sizes_match_ignoring_leading_1s lhs rhs =
     (let lhs_begin = arrayref_begin_ignoring_leading_1s lhs;
          lhs_end = length lhs;
          rhs_begin = arrayref_begin_ignoring_leading_1s rhs;
          rhs_end = length rhs
      in (lhs_end - lhs_begin = rhs_end - rhs_begin) \<and>
         std_equal lhs lhs_begin lhs_end rhs rhs_begin)"

datatype ElementwiseOptimizedPath =
  kNone | kTreatAs1d | kBroadcast2dBy1d | kBroadcast2dBy1dReverseArguments

definition select_broadcast_2d_by_1d_optimized_path ::
  "'v tensor \<Rightarrow> 'v tensor \<Rightarrow> ElementwiseOptimizedPath" where
  "select_broadcast_2d_by_1d_optimized_path lhs rhs =
     (let lhs_begin = arrayref_begin_ignoring_leading_1s (sizes lhs);
          lhs_end = length (sizes lhs);
          rhs_begin = arrayref_begin_ignoring_leading_1s (sizes rhs);
          rhs_end = length (sizes rhs);
          lhs_size = lhs_end - lhs_begin;
          rhs_size = rhs_end - rhs_begin
      in if lhs_size = 2 \<and> rhs_size = 1 \<and>
            sizes lhs ! (lhs_begin + 1) = sizes rhs ! (rhs_begin + 0)
         then kBroadcast2dBy1d
         else if lhs_size = 1 \<and> rhs_size = 2 \<and>
            sizes rhs ! (rhs_begin + 1) = sizes lhs ! (lhs_begin + 0)
         then kBroadcast2dBy1dReverseArguments
         else kNone)"

definition select_optimized_path ::
  "'v tensor \<Rightarrow> 'v tensor \<Rightarrow> 'v tensor \<Rightarrow> ElementwiseOptimizedPath" where
  "select_optimized_path a b out =
     (let a_type = scalar_type a;
          b_type = scalar_type b;
          out_type = scalar_type out
      in if a_type \<noteq> b_type \<or> a_type \<noteq> out_type \<or> a_type = HalfT then kNone
         else if sizes a = sizes b \<or>
                 (numel a = numel b \<and>
                  (numel a = numel out \<or>
                   sizes_match_ignoring_leading_1s (sizes a) (sizes b)))
         then kTreatAs1d
         else select_broadcast_2d_by_1d_optimized_path a b)"

text \<open>
  The spec's wording of the classifier, to compare with the code: stripping discards the
  contiguous leading prefix of extents equal to 1, and two shapes are equal ignoring
  leading 1s when the remaining suffixes have equal length and equal values pairwise.
\<close>

definition strip_leading_1s :: "nat list \<Rightarrow> nat list" where
  "strip_leading_1s s = dropWhile (\<lambda>x. x = 1) s"

definition equal_ignoring_leading_1s_spec :: "nat list \<Rightarrow> nat list \<Rightarrow> bool" where
  "equal_ignoring_leading_1s_spec lhs rhs =
     (length (strip_leading_1s lhs) = length (strip_leading_1s rhs) \<and>
      list_all (\<lambda>i. strip_leading_1s lhs ! i = strip_leading_1s rhs ! i)
        [0..<length (strip_leading_1s lhs)])"

text \<open>The spec's rule for the flat path, on the shapes of the two inputs and the output.\<close>

definition flatten_rule_spec :: "'v tensor \<Rightarrow> 'v tensor \<Rightarrow> 'v tensor \<Rightarrow> bool" where
  "flatten_rule_spec a b out =
     (sizes a = sizes b \<or>
      (numel a = numel b \<and>
       (numel out = numel a \<or> equal_ignoring_leading_1s_spec (sizes a) (sizes b))))"

section \<open>Collaborators\<close>

text \<open>
  Failures. \<open>ET_KERNEL_CHECK\<close> in the source names the error it reports,
  \<open>InvalidArgument\<close>, marks the call as failed and returns. \<open>ET_CHECK\<close> is the runtime's
  fatal assertion: the process is aborted and nothing is returned to the caller.
\<close>

datatype error = InvalidArgument | Abort

text \<open>
  A scalar argument: a tag (boolean, integer or floating-point) with one payload, which
  is an element value of the type \<open>get_scalar_dtype\<close> gives for the tag.
\<close>

datatype 'v Scalar = BoolScalar 'v | IntScalar 'v | DoubleScalar 'v

fun get_scalar_dtype :: "'v Scalar \<Rightarrow> ScalarType" where
  "get_scalar_dtype (BoolScalar _) = BoolT"
| "get_scalar_dtype (IntScalar _) = LongT"
| "get_scalar_dtype (DoubleScalar _) = DoubleT"

text \<open>\<open>ET_EXTRACT_SCALAR\<close>: the payload, as a value of the scalar's own type.\<close>

fun extract_scalar :: "'v Scalar \<Rightarrow> 'v" where
  "extract_scalar (BoolScalar v) = v"
| "extract_scalar (IntScalar v) = v"
| "extract_scalar (DoubleScalar v) = v"

text \<open>
  What the kernel calls and does not define: whether the container accepts a resize, the
  promotion table, the cast rule, the promotion of a tensor type with a scalar, and the
  element arithmetic (\<open>convert from to\<close> is a \<open>static_cast\<close> between two different element
  types, \<open>multiply t\<close> is the product of two values of type \<open>t\<close>). They are parameters of the
  model.
\<close>

record 'v env =
  resize_ok :: "'v tensor \<Rightarrow> nat list \<Rightarrow> bool"
  promoteTypes :: "ScalarType \<Rightarrow> ScalarType \<Rightarrow> bool \<Rightarrow> ScalarType"
  canCast :: "ScalarType \<Rightarrow> ScalarType \<Rightarrow> bool"
  promote_type_with_scalar :: "ScalarType \<Rightarrow> 'v Scalar \<Rightarrow> bool \<Rightarrow> ScalarType"
  convert :: "ScalarType \<Rightarrow> ScalarType \<Rightarrow> 'v \<Rightarrow> 'v"
  multiply :: "ScalarType \<Rightarrow> 'v \<Rightarrow> 'v \<Rightarrow> 'v"

text \<open>
  Modelled from the spec: \<open>resize_tensor\<close> is the resize collaborator
  \<open>resize(tensor, new_shape) -> Ok | ResizeFailed\<close>. On success the logical shape is the new
  one (\<open>None\<close> stands for every result other than \<open>Error::Ok\<close>, and a failed resize leaves the
  tensor as it was). The buffer is filled by the loop that follows each resize.
\<close>

definition resize_tensor :: "'v env \<Rightarrow> 'v tensor \<Rightarrow> nat list \<Rightarrow> 'v tensor option" where
  "resize_tensor c t new_sizes =
     (if resize_ok c t new_sizes then Some (t\<lparr>sizes := new_sizes\<rparr>) else None)"

text \<open>\<open>static_cast<TO>(v)\<close> for \<open>v\<close> of type \<open>FROM\<close>: the identity when both are the same type.\<close>

definition static_cast :: "'v env \<Rightarrow> ScalarType \<Rightarrow> ScalarType \<Rightarrow> 'v \<Rightarrow> 'v" where
  "static_cast c from to v = (if from = to then v else convert c from to v)"

text \<open>
  Modelled from the spec: the dispatch macros \<open>ET_SWITCH_REALB_TYPES\<close>,
  \<open>ET_SWITCH_REALHB_TYPES\<close> and \<open>ET_SWITCH_SCALAR_OBJ_TYPES\<close> are not part of the sources at
  hand. Each runs its body with the C type of a type tag in the family its name gives; a
  tag outside the family is an internal invariant violation, which the spec makes an
  unrecoverable assertion.
\<close>

definition REALB_TYPES :: "ScalarType list" where
  "REALB_TYPES = [ByteT, CharT, ShortT, IntT, LongT, FloatT, DoubleT, BoolT]"

definition REALHB_TYPES :: "ScalarType list" where
  "REALHB_TYPES = [ByteT, CharT, ShortT, IntT, LongT, HalfT, FloatT, DoubleT, BoolT]"

definition SCALAR_OBJ_TYPES :: "ScalarType list" where
  "SCALAR_OBJ_TYPES = [BoolT, LongT, DoubleT]"

definition ET_SWITCH :: "ScalarType list \<Rightarrow> ScalarType \<Rightarrow> error + 'a \<Rightarrow> error + 'a" where
  "ET_SWITCH family t body = (if t \<in> set family then body else Inl Abort)"

text \<open>
  Modelled from the spec: the vectorised loop primitives \<open>vec::map\<close>, \<open>vec::map2\<close> and
  \<open>vec::broadcasting_map_2d_by_1d\<close> are library code outside the sources at hand. The first
  two apply a function to the first \<open>n\<close> elements of one or two buffers; the third
  multiplies each of \<open>R\<close> rows of length \<open>C\<close> by the same length-\<open>C\<close> vector.
\<close>

definition vec_map :: "('v \<Rightarrow> 'v) \<Rightarrow> 'v list \<Rightarrow> nat \<Rightarrow> 'v list" where
  "vec_map f input n = map (\<lambda>i. f (input ! i)) [0..<n]"

definition vec_map2 :: "('v \<Rightarrow> 'v \<Rightarrow> 'v) \<Rightarrow> 'v list \<Rightarrow> 'v list \<Rightarrow> nat \<Rightarrow> 'v list" where
  "vec_map2 f input input2 n = map (\<lambda>i. f (input ! i) (input2 ! i)) [0..<n]"

definition broadcasting_map_2d_by_1d ::
  "('v \<Rightarrow> 'v \<Rightarrow> 'v) \<Rightarrow> 'v list \<Rightarrow> 'v list \<Rightarrow> nat \<Rightarrow> nat \<Rightarrow> 'v list" where
  "broadcasting_map_2d_by_1d f lhs rhs R C =
     concat (map (\<lambda>r. map (\<lambda>j. f (lhs ! (r * C + j)) (rhs ! j)) [0..<C]) [0..<R])"

text \<open>
  Modelled from the spec: \<open>resize_to_broadcast_target_size\<close> and
  \<open>apply_binary_elementwise_fn\<close> (broadcast_util.h) are not part of the sources at hand.
  The spec's rule: dimensions are aligned from the trailing end, an extent of 1 in either
  operand broadcasts against the other's extent, and dimensions absent on the shorter
  shape count as extent 1; any other pair of extents is a shape mismatch. The functions
  with suffix \<open>_rev\<close> work on shapes written innermost extent first.
\<close>

fun broadcast_sizes_rev :: "nat list \<Rightarrow> nat list \<Rightarrow> nat list option" where
  "broadcast_sizes_rev [] ys = Some ys"
| "broadcast_sizes_rev xs [] = Some xs"
| "broadcast_sizes_rev (x # xs) (y # ys) =
     (if x = y \<or> x = 1 \<or> y = 1
      then map_option (\<lambda>r. (if x = 1 then y else x) # r) (broadcast_sizes_rev xs ys)
      else None)"

definition get_broadcast_target_size :: "nat list \<Rightarrow> nat list \<Rightarrow> nat list option" where
  "get_broadcast_target_size a_sizes b_sizes =
     map_option rev (broadcast_sizes_rev (rev a_sizes) (rev b_sizes))"

definition resize_to_broadcast_target_size ::
  "'v env \<Rightarrow> 'v tensor \<Rightarrow> 'v tensor \<Rightarrow> 'v tensor \<Rightarrow> 'v tensor option" where
  "resize_to_broadcast_target_size c a b out =
     (case get_broadcast_target_size (sizes a) (sizes b) of
        None \<Rightarrow> None
      | Some target \<Rightarrow> resize_tensor c out target)"

text \<open>
  The position in an operand's buffer that output position \<open>i\<close> reads: the coordinates of
  \<open>i\<close> in the output shape, with coordinate 0 along every dimension where the operand has
  extent 1 or no dimension at all, linearised in the operand's own shape.
\<close>

fun broadcast_index_rev :: "nat list \<Rightarrow> nat list \<Rightarrow> nat \<Rightarrow> nat" where
  "broadcast_index_rev (n # ns) (m # ms) i =
     (if m = 1 then 0 else i mod n) + m * broadcast_index_rev ns ms (i div n)"
| "broadcast_index_rev ns ms i = 0"

definition linearize_access_indexes :: "nat list \<Rightarrow> nat list \<Rightarrow> nat \<Rightarrow> nat" where
  "linearize_access_indexes out_sizes in_sizes i =
     broadcast_index_rev (rev out_sizes) (rev in_sizes) i"

definition apply_binary_elementwise_fn ::
  "('v \<Rightarrow> 'v \<Rightarrow> 'v) \<Rightarrow> 'v tensor \<Rightarrow> 'v tensor \<Rightarrow> 'v tensor \<Rightarrow> 'v list" where
  "apply_binary_elementwise_fn compute_fun a b out =
     map (\<lambda>i. compute_fun
                 (data a ! linearize_access_indexes (sizes out) (sizes a) i)
                 (data b ! linearize_access_indexes (sizes out) (sizes b) i))
       [0..<numel out]"

section \<open>The tensor-tensor operator\<close>

text \<open>
  \<open>opt_mul_out\<close>, lines 153 to 173: the single-element right operand with homogeneous
  types. The result is \<open>Inl\<close> with the error on a failed call and \<open>Inr\<close> with the output
  tensor otherwise.
\<close>

definition mul_scalar_tensor_path ::
  "'v env \<Rightarrow> 'v tensor \<Rightarrow> 'v tensor \<Rightarrow> 'v tensor \<Rightarrow> error + 'v tensor" where
  "mul_scalar_tensor_path c a b out =
     (case resize_tensor c out (sizes a) of
        None \<Rightarrow> Inl InvalidArgument
      | Some out1 \<Rightarrow>
          ET_SWITCH REALB_TYPES (scalar_type a)
            (ET_SWITCH REALB_TYPES (scalar_type b)
               (let b_val = data b ! 0;
                    b_casted = static_cast c (scalar_type b) (scalar_type a) b_val
                in Inr (out1\<lparr>data :=
                     vec_map (\<lambda>x. multiply c (scalar_type a) x b_casted)
                       (data a) (numel out1)\<rparr>))))"

text \<open>Lines 181 to 198: both inputs read as flat sequences of equal length.\<close>

definition mul_treat_as_1d ::
  "'v env \<Rightarrow> 'v tensor \<Rightarrow> 'v tensor \<Rightarrow> 'v tensor \<Rightarrow> error + 'v tensor" where
  "mul_treat_as_1d c a b out =
     (case resize_tensor c out (sizes a) of
        None \<Rightarrow> Inl InvalidArgument
      | Some out1 \<Rightarrow>
          ET_SWITCH REALB_TYPES (scalar_type out)
            (Inr (out1\<lparr>data :=
               vec_map2 (multiply c (scalar_type out)) (data a) (data b) (numel out1)\<rparr>)))"

text \<open>
  Lines 200 to 230: the row broadcast. \<open>lhs\<close> is the matrix operand and \<open>rhs\<close> the vector;
  the reversed variant takes them from \<open>b\<close> and \<open>a\<close>. The source's debug assertion that any
  other selection is \<open>kBroadcast2dBy1d\<close> holds by the enumeration. The two extents are read
  at \<open>dim - 2\<close> and \<open>dim - 1\<close>; on this path \<open>lhs\<close> has at least two dimensions.
\<close>

definition mul_broadcast_2d_by_1d ::
  "'v env \<Rightarrow> ElementwiseOptimizedPath \<Rightarrow> 'v tensor \<Rightarrow> 'v tensor \<Rightarrow> 'v tensor \<Rightarrow>
   error + 'v tensor" where
  "mul_broadcast_2d_by_1d c selected_optimized_path a b out =
     (let lhs = (if selected_optimized_path = kBroadcast2dBy1dReverseArguments then b else a);
          rhs = (if selected_optimized_path = kBroadcast2dBy1dReverseArguments then a else b)
      in case resize_tensor c out (sizes lhs) of
           None \<Rightarrow> Inl InvalidArgument
         | Some out1 \<Rightarrow>
             ET_SWITCH REALB_TYPES (scalar_type out)
               (Inr (out1\<lparr>data :=
                  broadcasting_map_2d_by_1d (multiply c (scalar_type out))
                    (data lhs) (data rhs)
                    (sizes lhs ! (dim lhs - 2)) (sizes lhs ! (dim lhs - 1))\<rparr>)))"

text \<open>
  Lines 232 to 261: the general path. \<open>CTYPE_IN\<close> is the compile-time promotion of the two
  input C types, which the source asserts to be \<open>common_type\<close>.
\<close>

definition mul_general ::
  "'v env \<Rightarrow> 'v tensor \<Rightarrow> 'v tensor \<Rightarrow> 'v tensor \<Rightarrow> error + 'v tensor" where
  "mul_general c a b out =
     (let a_type = scalar_type a;
          b_type = scalar_type b;
          out_type = scalar_type out;
          common_type = promoteTypes c a_type b_type True
      in if \<not> canCast c common_type out_type then Inl InvalidArgument
         else case resize_to_broadcast_target_size c a b out of
           None \<Rightarrow> Inl InvalidArgument
         | Some out1 \<Rightarrow>
             ET_SWITCH REALHB_TYPES a_type
               (ET_SWITCH REALHB_TYPES b_type
                  (ET_SWITCH REALHB_TYPES out_type
                     (Inr (out1\<lparr>data :=
                        apply_binary_elementwise_fn
                          (\<lambda>val_a val_b.
                             let a_casted = static_cast c a_type common_type val_a;
                                 b_casted = static_cast c b_type common_type val_b;
                                 value = multiply c common_type a_casted b_casted
                             in static_cast c common_type out_type value)
                          a b out1\<rparr>)))))"

text \<open>Lines 179 to 264: the choice among the three strategies.\<close>

definition mul_dispatch ::
  "'v env \<Rightarrow> 'v tensor \<Rightarrow> 'v tensor \<Rightarrow> 'v tensor \<Rightarrow> error + 'v tensor" where
  "mul_dispatch c a b out =
     (let selected_optimized_path = select_optimized_path a b out
      in if selected_optimized_path = kTreatAs1d then mul_treat_as_1d c a b out
         else if selected_optimized_path \<noteq> kNone
         then mul_broadcast_2d_by_1d c selected_optimized_path a b out
         else mul_general c a b out)"

text \<open>
  \<open>opt_mul_out\<close>. The source calls itself with the operands swapped when only the left
  operand has a single element; the swapped call has a single-element right operand and
  does not recurse again.
\<close>

function opt_mul_out ::
  "'v env \<Rightarrow> 'v tensor \<Rightarrow> 'v tensor \<Rightarrow> 'v tensor \<Rightarrow> error + 'v tensor" where
  "opt_mul_out c a b out =
     (if numel b = 1 then
        (if scalar_type a = scalar_type b \<and> scalar_type a = scalar_type out \<and>
            scalar_type a \<noteq> HalfT
         then mul_scalar_tensor_path c a b out
         else mul_dispatch c a b out)
      else if numel a = 1 then opt_mul_out c b a out
      else mul_dispatch c a b out)"
  by pat_completeness auto
termination
  by (relation "measure (\<lambda>(c, a, b, out). if numel b = 1 then 0 else 1)") auto

text \<open>
  The spec's wording of the scalar broadcast, to compare with the code: the output takes
  the tensor operand's shape and every element is multiplied by the single value.
\<close>

definition scalar_broadcast_spec ::
  "'v env \<Rightarrow> 'v tensor \<Rightarrow> 'v \<Rightarrow> 'v tensor \<Rightarrow> error + 'v tensor" where
  "scalar_broadcast_spec c t v out =
     (if resize_ok c out (sizes t)
      then Inr (out\<lparr>sizes := sizes t,
                    data := map (\<lambda>x. multiply c (scalar_type t) x v) (data t)\<rparr>)
      else Inl InvalidArgument)"



section \<open>The tensor-scalar operator\<close>

definition opt_mul_scalar_out ::
  "'v env \<Rightarrow> 'v tensor \<Rightarrow> 'v Scalar \<Rightarrow> 'v tensor \<Rightarrow> error + 'v tensor" where
  "opt_mul_scalar_out c a b out =
     (let a_type = scalar_type a;
          b_type = get_scalar_dtype b;
          common_type0 = promote_type_with_scalar c a_type b False;
          out_type = scalar_type out
      in if common_type0 \<noteq> out_type then Inl Abort
         else
           let common_type = (if common_type0 = HalfT then FloatT else common_type0)
           in case resize_tensor c out (sizes a) of
                None \<Rightarrow> Inl Abort
              | Some out1 \<Rightarrow>
                  if a_type = common_type \<and> a_type = out_type \<and> a_type \<noteq> HalfT
                  then
                    ET_SWITCH REALB_TYPES a_type
                      (ET_SWITCH SCALAR_OBJ_TYPES b_type
                         (let b_val = extract_scalar b;
                              b_casted = static_cast c b_type a_type b_val
                          in Inr (out1\<lparr>data :=
                               vec_map (\<lambda>x. multiply c a_type x b_casted)
                                 (data a) (numel out1)\<rparr>)))
                  else
                    ET_SWITCH REALHB_TYPES a_type
                      (ET_SWITCH SCALAR_OBJ_TYPES b_type
                         (ET_SWITCH REALB_TYPES common_type
                            (ET_SWITCH REALHB_TYPES out_type
                               (let b_val = extract_scalar b;
                                    b_casted = static_cast c b_type common_type b_val;
                                    n = numel a
                                in Inr (out1\<lparr>data :=
                                     map (\<lambda>i. static_cast c common_type out_type
                                                (multiply c common_type
                                                   (static_cast c a_type common_type
                                                      (data a ! i))
                                                   b_casted))
                                       [0..<n]\<rparr>))))))"

section \<open>The operators on memory\<close>

text \<open>
  The source takes its tensors by reference and reaches their elements through data
  pointers: \<open>a\<close> and \<open>b\<close> are \<open>const Tensor&\<close>, \<open>out\<close> is \<open>Tensor&\<close>, and neither operator
  compares them. Two references may be the same tensor object, and two tensor objects
  may hold data pointers into the same buffer. To state what a call can change, this
  section runs the control flow of the two operators on a memory. A tensor object, found
  by its address, holds a shape, a type tag and a data pointer (\<open>sizes()\<close>,
  \<open>scalar_type()\<close>, \<open>const_data_ptr()\<close> and \<open>mutable_data_ptr()\<close> in the source); an element
  cell is found by its index. A cell holds one element, so that buffers overlap element
  by element; a buffer read at another element width is not represented. The scalar
  argument of the tensor-scalar operator is passed as a value and is not in memory.
\<close>

record tensor_impl =
  impl_sizes :: "nat list"
  impl_type :: ScalarType
  impl_data :: nat

record 'v memory =
  tensors :: "nat \<Rightarrow> tensor_impl"
  cells :: "nat \<Rightarrow> 'v"

text \<open>
  \<open>numel()\<close> of an object, and the tensor value an object denotes in a memory: the form on
  which the operators of the previous sections are defined.
\<close>

definition numel_at :: "'v memory \<Rightarrow> nat \<Rightarrow> nat" where
  "numel_at s p = prod_list (impl_sizes (tensors s p))"

definition tensor_of :: "'v memory \<Rightarrow> nat \<Rightarrow> 'v tensor" where
  "tensor_of s p =
     \<lparr> sizes = impl_sizes (tensors s p),
       scalar_type = impl_type (tensors s p),
       data = map (\<lambda>i. cells s (impl_data (tensors s p) + i)) [0..<numel_at s p] \<rparr>"

text \<open>
  Modelled from the spec: the resize collaborator, on a memory. A successful resize sets
  the logical shape of the object and may reallocate its buffer; where the buffer is
  after the resize is decided by the container, the parameter \<open>place\<close> (it may be the
  data pointer the object had). No cell is written by a resize: the loop that follows
  fills the buffer. A refused resize changes nothing. The operators below read every
  shape and data pointer they use in a loop from the memory after the resize, as the
  source does.
\<close>

type_synonym 'v placement = "'v memory \<Rightarrow> nat \<Rightarrow> nat list \<Rightarrow> nat"

definition resize_tensor_mem ::
  "'v env \<Rightarrow> 'v placement \<Rightarrow> 'v memory \<Rightarrow> nat \<Rightarrow> nat list \<Rightarrow> 'v memory option" where
  "resize_tensor_mem c place s t new_sizes =
     (if resize_ok c (tensor_of s t) new_sizes
      then Some (s\<lparr>tensors := (tensors s)
                   (t := (tensors s t)\<lparr>impl_sizes := new_sizes,
                                         impl_data := place s t new_sizes\<rparr>)\<rparr>)
      else None)"

text \<open>
  The dispatch macros on a memory. An aborted call returns nothing; the model shows the
  memory at the point of the abort.
\<close>

definition ET_SWITCH_mem ::
  "ScalarType list \<Rightarrow> ScalarType \<Rightarrow> 'v memory \<Rightarrow> error option \<times> 'v memory \<Rightarrow>
   error option \<times> 'v memory" where
  "ET_SWITCH_mem family t s body = (if t \<in> set family then body else (Some Abort, s))"

text \<open>
  A loop is a sequence of stores through one pointer: the step \<open>(k, rd)\<close> stores at cell
  \<open>dst + k\<close> the value that \<open>rd\<close> computes from the memory as it is when the step runs, so
  that a load sees what the earlier steps have stored.
\<close>

fun seq_store ::
  "nat \<Rightarrow> (nat \<times> ((nat \<Rightarrow> 'v) \<Rightarrow> 'v)) list \<Rightarrow> (nat \<Rightarrow> 'v) \<Rightarrow> (nat \<Rightarrow> 'v)" where
  "seq_store dst [] m = m"
| "seq_store dst ((k, rd) # steps) m = seq_store dst steps (m(dst + k := rd m))"

text \<open>
  Modelled from the spec: the vectorised loop primitives on memory, one load and store
  per element in index order, rows outermost for the row broadcast. The library
  primitives work on groups of consecutive elements of vector width; the order of the
  loads and stores inside one group is not modelled.
\<close>

definition vec_map_mem ::
  "('v \<Rightarrow> 'v) \<Rightarrow> nat \<Rightarrow> nat \<Rightarrow> nat \<Rightarrow> (nat \<Rightarrow> 'v) \<Rightarrow> (nat \<Rightarrow> 'v)" where
  "vec_map_mem f output input n =
     seq_store output (map (\<lambda>i. (i, \<lambda>m. f (m (input + i)))) [0..<n])"

definition vec_map2_mem ::
  "('v \<Rightarrow> 'v \<Rightarrow> 'v) \<Rightarrow> nat \<Rightarrow> nat \<Rightarrow> nat \<Rightarrow> nat \<Rightarrow> (nat \<Rightarrow> 'v) \<Rightarrow> (nat \<Rightarrow> 'v)" where
  "vec_map2_mem f output input input2 n =
     seq_store output (map (\<lambda>i. (i, \<lambda>m. f (m (input + i)) (m (input2 + i)))) [0..<n])"

definition broadcasting_map_2d_by_1d_mem ::
  "('v \<Rightarrow> 'v \<Rightarrow> 'v) \<Rightarrow> nat \<Rightarrow> nat \<Rightarrow> nat \<Rightarrow> nat \<Rightarrow> nat \<Rightarrow> (nat \<Rightarrow> 'v) \<Rightarrow> (nat \<Rightarrow> 'v)" where
  "broadcasting_map_2d_by_1d_mem f output lhs rhs R C =
     seq_store output
       (concat (map (\<lambda>r. map (\<lambda>j. (r * C + j, \<lambda>m. f (m (lhs + (r * C + j))) (m (rhs + j))))
                            [0..<C])
                 [0..<R]))"

text \<open>
  Modelled from the spec: \<open>apply_binary_elementwise_fn\<close> on memory. For each output index
  in order it loads one element of each operand at the broadcast position and stores
  the result, with the shapes and data pointers the three objects have when it is
  called.
\<close>

definition apply_binary_elementwise_fn_mem ::
  "('v \<Rightarrow> 'v \<Rightarrow> 'v) \<Rightarrow> 'v memory \<Rightarrow> nat \<Rightarrow> nat \<Rightarrow> nat \<Rightarrow> (nat \<Rightarrow> 'v)" where
  "apply_binary_elementwise_fn_mem compute_fun s a b out =
     seq_store (impl_data (tensors s out))
       (map (\<lambda>i. (i, \<lambda>m. compute_fun
                 (m (impl_data (tensors s a) +
                     linearize_access_indexes (impl_sizes (tensors s out))
                       (impl_sizes (tensors s a)) i))
                 (m (impl_data (tensors s b) +
                     linearize_access_indexes (impl_sizes (tensors s out))
                       (impl_sizes (tensors s b)) i))))
          [0..<numel_at s out])
       (cells s)"

text \<open>
  \<open>opt_mul_out\<close>, lines 153 to 173, on memory. A failed \<open>ET_KERNEL_CHECK\<close> returns with
  the memory as it is at that point. The single element of \<open>b\<close> is loaded once, after the
  resize and before the loop.
\<close>

definition mul_scalar_tensor_path_mem ::
  "'v env \<Rightarrow> 'v placement \<Rightarrow> 'v memory \<Rightarrow> nat \<Rightarrow> nat \<Rightarrow> nat \<Rightarrow>
   error option \<times> 'v memory" where
  "mul_scalar_tensor_path_mem c place s a b out =
     (let a_type = impl_type (tensors s a);
          b_type = impl_type (tensors s b)
      in case resize_tensor_mem c place s out (impl_sizes (tensors s a)) of
           None \<Rightarrow> (Some InvalidArgument, s)
         | Some s1 \<Rightarrow>
             ET_SWITCH_mem REALB_TYPES a_type s1
               (ET_SWITCH_mem REALB_TYPES b_type s1
                  (let b_val = cells s1 (impl_data (tensors s1 b) + 0);
                       b_casted = static_cast c b_type a_type b_val
                   in (None, s1\<lparr>cells :=
                         vec_map_mem (\<lambda>x. multiply c a_type x b_casted)
                           (impl_data (tensors s1 out)) (impl_data (tensors s1 a))
                           (numel_at s1 out) (cells s1)\<rparr>))))"

text \<open>Lines 181 to 198 on memory.\<close>

definition mul_treat_as_1d_mem ::
  "'v env \<Rightarrow> 'v placement \<Rightarrow> 'v memory \<Rightarrow> nat \<Rightarrow> nat \<Rightarrow> nat \<Rightarrow>
   error option \<times> 'v memory" where
  "mul_treat_as_1d_mem c place s a b out =
     (let out_type = impl_type (tensors s out)
      in case resize_tensor_mem c place s out (impl_sizes (tensors s a)) of
           None \<Rightarrow> (Some InvalidArgument, s)
         | Some s1 \<Rightarrow>
             ET_SWITCH_mem REALB_TYPES out_type s1
               (None, s1\<lparr>cells :=
                  vec_map2_mem (multiply c out_type)
                    (impl_data (tensors s1 out)) (impl_data (tensors s1 a))
                    (impl_data (tensors s1 b)) (numel_at s1 out) (cells s1)\<rparr>))"

text \<open>
  Lines 199 to 230 on memory. The row count and the row length are read from \<open>lhs\<close>
  after the resize.
\<close>

definition mul_broadcast_2d_by_1d_mem ::
  "'v env \<Rightarrow> 'v placement \<Rightarrow> ElementwiseOptimizedPath \<Rightarrow> 'v memory \<Rightarrow>
   nat \<Rightarrow> nat \<Rightarrow> nat \<Rightarrow> error option \<times> 'v memory" where
  "mul_broadcast_2d_by_1d_mem c place selected_optimized_path s a b out =
     (let out_type = impl_type (tensors s out);
          lhs = (if selected_optimized_path = kBroadcast2dBy1dReverseArguments then b else a);
          rhs = (if selected_optimized_path = kBroadcast2dBy1dReverseArguments then a else b)
      in case resize_tensor_mem c place s out (impl_sizes (tensors s lhs)) of
           None \<Rightarrow> (Some InvalidArgument, s)
         | Some s1 \<Rightarrow>
             ET_SWITCH_mem REALB_TYPES out_type s1
               (None, s1\<lparr>cells :=
                  broadcasting_map_2d_by_1d_mem (multiply c out_type)
                    (impl_data (tensors s1 out)) (impl_data (tensors s1 lhs))
                    (impl_data (tensors s1 rhs))
                    (impl_sizes (tensors s1 lhs) ! (length (impl_sizes (tensors s1 lhs)) - 2))
                    (impl_sizes (tensors s1 lhs) ! (length (impl_sizes (tensors s1 lhs)) - 1))
                    (cells s1)\<rparr>))"

text \<open>Lines 231 to 261 on memory.\<close>

definition resize_to_broadcast_target_size_mem ::
  "'v env \<Rightarrow> 'v placement \<Rightarrow> 'v memory \<Rightarrow> nat \<Rightarrow> nat \<Rightarrow> nat \<Rightarrow>
   'v memory option" where
  "resize_to_broadcast_target_size_mem c place s a b out =
     (case get_broadcast_target_size (impl_sizes (tensors s a)) (impl_sizes (tensors s b)) of
        None \<Rightarrow> None
      | Some target \<Rightarrow> resize_tensor_mem c place s out target)"

definition mul_general_mem ::
  "'v env \<Rightarrow> 'v placement \<Rightarrow> 'v memory \<Rightarrow> nat \<Rightarrow> nat \<Rightarrow> nat \<Rightarrow>
   error option \<times> 'v memory" where
  "mul_general_mem c place s a b out =
     (let a_type = impl_type (tensors s a);
          b_type = impl_type (tensors s b);
          out_type = impl_type (tensors s out);
          common_type = promoteTypes c a_type b_type True
      in if \<not> canCast c common_type out_type then (Some InvalidArgument, s)
         else case resize_to_broadcast_target_size_mem c place s a b out of
           None \<Rightarrow> (Some InvalidArgument, s)
         | Some s1 \<Rightarrow>
             ET_SWITCH_mem REALHB_TYPES a_type s1
               (ET_SWITCH_mem REALHB_TYPES b_type s1
                  (ET_SWITCH_mem REALHB_TYPES out_type s1
                     (None, s1\<lparr>cells :=
                        apply_binary_elementwise_fn_mem
                          (\<lambda>val_a val_b.
                             let a_casted = static_cast c a_type common_type val_a;
                                 b_casted = static_cast c b_type common_type val_b;
                                 value = multiply c common_type a_casted b_casted
                             in static_cast c common_type out_type value)
                          s1 a b out\<rparr>))))"

text \<open>
  Lines 179 to 261: the path is selected from the shapes and types of the three objects
  at entry.
\<close>

definition mul_dispatch_mem ::
  "'v env \<Rightarrow> 'v placement \<Rightarrow> 'v memory \<Rightarrow> nat \<Rightarrow> nat \<Rightarrow> nat \<Rightarrow>
   error option \<times> 'v memory" where
  "mul_dispatch_mem c place s a b out =
     (let selected_optimized_path =
            select_optimized_path (tensor_of s a) (tensor_of s b) (tensor_of s out)
      in if selected_optimized_path = kTreatAs1d then mul_treat_as_1d_mem c place s a b out
         else if selected_optimized_path \<noteq> kNone
         then mul_broadcast_2d_by_1d_mem c place selected_optimized_path s a b out
         else mul_general_mem c place s a b out)"

text \<open>
  \<open>opt_mul_out\<close> on memory, with the branch structure of lines 151 to 177. The arguments
  are the addresses of the three tensor objects; nothing requires them to differ.
\<close>

function opt_mul_out_mem ::
  "'v env \<Rightarrow> 'v placement \<Rightarrow> 'v memory \<Rightarrow> nat \<Rightarrow> nat \<Rightarrow> nat \<Rightarrow>
   error option \<times> 'v memory" where
  "opt_mul_out_mem c place s a b out =
     (if numel_at s b = 1 then
        (if impl_type (tensors s a) = impl_type (tensors s b) \<and>
            impl_type (tensors s a) = impl_type (tensors s out) \<and>
            impl_type (tensors s a) \<noteq> HalfT
         then mul_scalar_tensor_path_mem c place s a b out
         else mul_dispatch_mem c place s a b out)
      else if numel_at s a = 1 then opt_mul_out_mem c place s b a out
      else mul_dispatch_mem c place s a b out)"
  by pat_completeness auto
termination
  by (relation "measure (\<lambda>(c, place, s, a, b, out). if numel_at s b = 1 then 0 else 1)") auto

text \<open>\<open>opt_mul_scalar_out\<close>, lines 267 to 331, on memory.\<close>

definition opt_mul_scalar_out_mem ::
  "'v env \<Rightarrow> 'v placement \<Rightarrow> 'v memory \<Rightarrow> nat \<Rightarrow> 'v Scalar \<Rightarrow> nat \<Rightarrow>
   error option \<times> 'v memory" where
  "opt_mul_scalar_out_mem c place s a b out =
     (let a_type = impl_type (tensors s a);
          b_type = get_scalar_dtype b;
          common_type0 = promote_type_with_scalar c a_type b False;
          out_type = impl_type (tensors s out)
      in if common_type0 \<noteq> out_type then (Some Abort, s)
         else
           let common_type = (if common_type0 = HalfT then FloatT else common_type0)
           in case resize_tensor_mem c place s out (impl_sizes (tensors s a)) of
                None \<Rightarrow> (Some Abort, s)
              | Some s1 \<Rightarrow>
                  if a_type = common_type \<and> a_type = out_type \<and> a_type \<noteq> HalfT
                  then
                    ET_SWITCH_mem REALB_TYPES a_type s1
                      (ET_SWITCH_mem SCALAR_OBJ_TYPES b_type s1
                         (let b_val = extract_scalar b;
                              b_casted = static_cast c b_type a_type b_val
                          in (None, s1\<lparr>cells :=
                               vec_map_mem (\<lambda>x. multiply c a_type x b_casted)
                                 (impl_data (tensors s1 out)) (impl_data (tensors s1 a))
                                 (numel_at s1 out) (cells s1)\<rparr>)))
                  else
                    ET_SWITCH_mem REALHB_TYPES a_type s1
                      (ET_SWITCH_mem SCALAR_OBJ_TYPES b_type s1
                         (ET_SWITCH_mem REALB_TYPES common_type s1
                            (ET_SWITCH_mem REALHB_TYPES out_type s1
                               (let b_val = extract_scalar b;
                                    b_casted = static_cast c b_type common_type b_val;
                                    n = numel_at s1 a
                                in (None, s1\<lparr>cells :=
                                     seq_store (impl_data (tensors s1 out))
                                       (map (\<lambda>i. (i, \<lambda>m.
                                              static_cast c common_type out_type
                                                (multiply c common_type
                                                   (static_cast c a_type common_type
                                                      (m (impl_data (tensors s1 a) + i)))
                                                   b_casted)))
                                          [0..<n])
                                       (cells s1)\<rparr>))))))"

text \<open>
  What a call may change, from the memory \<open>s\<close> at entry to the memory \<open>s'\<close> it leaves: the
  shape and the data pointer of the output object, and the cells of the output's buffer
  as it is in \<open>s'\<close>. Every other object and every other cell is as in \<open>s\<close>, and the type of
  the output object as well.
\<close>

definition only_output_modified :: "'v memory \<Rightarrow> 'v memory \<Rightarrow> nat \<Rightarrow> bool" where
  "only_output_modified s s' out =
     ((\<forall>p. p \<noteq> out \<longrightarrow> tensors s' p = tensors s p) \<and>
      impl_type (tensors s' out) = impl_type (tensors s out) \<and>
      (\<forall>x. x \<notin> {impl_data (tensors s' out) ..< impl_data (tensors s' out) + numel_at s' out}
           \<longrightarrow> cells s' x = cells s x))"

text \<open>
  The outcome \<open>r\<close> of an operator on memory and the outcome \<open>pure\<close> of the operator on
  values are the same: the same error, or success with the output object denoting the
  returned tensor.
\<close>

definition same_outcome ::
  "error option \<times> 'v memory \<Rightarrow> nat \<Rightarrow> error + 'v tensor \<Rightarrow> bool" where
  "same_outcome r out pure =
     (case pure of
        Inl e \<Rightarrow> fst r = Some e
      | Inr t \<Rightarrow> fst r = None \<and> tensor_of (snd r) out = t)"

section \<open>An instance of the collaborators\<close>

text \<open>
  Modelled from the spec: the promotion lattice and the cast rule live in the runtime's
  type utilities, outside the sources at hand. In the lattice the floating kinds dominate
  the integer kinds, two integer kinds promote to the smallest kind able to represent
  both (uint8 with int8 gives int16), bool is below every kind, and with half-to-float
  widening the reduced-precision kind is taken as float32 first. In the cast rule a
  floating kind does not reach an integer kind, and only bool reaches bool.
\<close>

fun type_rank :: "ScalarType \<Rightarrow> nat" where
  "type_rank BoolT = 0"
| "type_rank ByteT = 1"
| "type_rank CharT = 2"
| "type_rank ShortT = 3"
| "type_rank IntT = 4"
| "type_rank LongT = 5"
| "type_rank HalfT = 6"
| "type_rank FloatT = 7"
| "type_rank DoubleT = 8"

definition isFloatingType :: "ScalarType \<Rightarrow> bool" where
  "isFloatingType t = (t = HalfT \<or> t = FloatT \<or> t = DoubleT)"

definition isIntegralType :: "ScalarType \<Rightarrow> bool \<Rightarrow> bool" where
  "isIntegralType t includeBool =
     (t = ByteT \<or> t = CharT \<or> t = ShortT \<or> t = IntT \<or> t = LongT \<or>
      (includeBool \<and> t = BoolT))"

definition promoteTypes_ref :: "ScalarType \<Rightarrow> ScalarType \<Rightarrow> bool \<Rightarrow> ScalarType" where
  "promoteTypes_ref a b half_to_float =
     (let a' = (if half_to_float \<and> a = HalfT then FloatT else a);
          b' = (if half_to_float \<and> b = HalfT then FloatT else b)
      in if a' = b' then a'
         else if (a' = ByteT \<and> b' = CharT) \<or> (a' = CharT \<and> b' = ByteT) then ShortT
         else if type_rank a' < type_rank b' then b' else a')"

definition canCast_ref :: "ScalarType \<Rightarrow> ScalarType \<Rightarrow> bool" where
  "canCast_ref from to =
     (\<not> (isFloatingType from \<and> isIntegralType to False) \<and>
      \<not> (from \<noteq> BoolT \<and> to = BoolT))"

text \<open>
  Modelled from the spec: \<open>promote_type_with_scalar\<close> is the analogous promotion of a
  tensor's type with a scalar. A floating-point scalar leaves a floating tensor type as
  it is and turns any other into float32; an integer scalar leaves every type but bool,
  which becomes int64; a boolean scalar changes nothing.
\<close>

definition promote_type_with_scalar_ref ::
  "ScalarType \<Rightarrow> 'v Scalar \<Rightarrow> bool \<Rightarrow> ScalarType" where
  "promote_type_with_scalar_ref t scalar half_to_float =
     (let t' = (if half_to_float \<and> t = HalfT then FloatT else t)
      in case scalar of
           DoubleScalar _ \<Rightarrow> (if isFloatingType t' then t' else FloatT)
         | IntScalar _ \<Rightarrow>
             (if isFloatingType t' \<or> isIntegralType t' False then t' else LongT)
         | BoolScalar _ \<Rightarrow> t')"

text \<open>
  Two instances over the mathematical integers, for running the operators on concrete
  inputs: products are exact and a conversion keeps the value, which is the arithmetic of
  the element types on integer values that stay in range. In \<open>exact_env\<close> every resize is
  accepted (a dynamically shaped output); in \<open>static_env\<close> a resize is accepted only when
  it keeps the shape (a statically shaped output).
\<close>

definition exact_env :: "int env" where
  "exact_env =
     \<lparr> resize_ok = (\<lambda>t new_sizes. True),
       promoteTypes = promoteTypes_ref,
       canCast = canCast_ref,
       promote_type_with_scalar = promote_type_with_scalar_ref,
       convert = (\<lambda>from to v. v),
       multiply = (\<lambda>t x y. x * y) \<rparr>"

definition static_env :: "int env" where
  "static_env = exact_env \<lparr> resize_ok := (\<lambda>t new_sizes. sizes t = new_sizes) \<rparr>"

section \<open>Concrete tensors\<close>

text \<open>Inputs on which the theorems below are instantiated.\<close>

definition ex_v116 :: "int tensor" where
  "ex_v116 = \<lparr>sizes = [1, 1, 6], scalar_type = IntT, data = [1, 2, 3, 4, 5, 6]\<rparr>"
definition ex_v6 :: "int tensor" where
  "ex_v6 = \<lparr>sizes = [6], scalar_type = IntT, data = [6, 5, 4, 3, 2, 1]\<rparr>"
definition ex_f6 :: "int tensor" where
  "ex_f6 = \<lparr>sizes = [6], scalar_type = FloatT, data = [6, 5, 4, 3, 2, 1]\<rparr>"
definition ex_out :: "int tensor" where
  "ex_out = \<lparr>sizes = [0], scalar_type = IntT, data = []\<rparr>"

definition ex_m22 :: "int tensor" where
  "ex_m22 = \<lparr>sizes = [2, 2], scalar_type = IntT, data = [1, 2, 3, 4]\<rparr>"
definition ex_v2 :: "int tensor" where
  "ex_v2 = \<lparr>sizes = [2], scalar_type = IntT, data = [10, 20]\<rparr>"
definition ex_ones :: "int tensor" where
  "ex_ones = \<lparr>sizes = [1, 1], scalar_type = IntT, data = [7]\<rparr>"

definition ex_fm22 :: "int tensor" where
  "ex_fm22 = \<lparr>sizes = [2, 2], scalar_type = FloatT, data = [1, 2, 3, 4]\<rparr>"
definition ex_fn22 :: "int tensor" where
  "ex_fn22 = \<lparr>sizes = [2, 2], scalar_type = FloatT, data = [5, 6, 7, 8]\<rparr>"


definition ex_n22 :: "int tensor" where
  "ex_n22 = \<lparr>sizes = [2, 2], scalar_type = IntT, data = [5, 6, 7, 8]\<rparr>"

definition ex_fout :: "int tensor" where
  "ex_fout = \<lparr>sizes = [0], scalar_type = FloatT, data = []\<rparr>"

section \<open>A concrete memory\<close>

text \<open>
  \<open>keep_buffer\<close> is the container that resizes in place. In \<open>ex_mem\<close> the objects 10 and 11
  are two 2 by 2 tensors on the same buffer at cell 100, the objects 12 and 13 are a
  single element and a vector of length 2 on the buffer at cell 200, and every other
  address holds an empty tensor whose buffer is at cell 300.
\<close>

definition keep_buffer :: "'v placement" where
  "keep_buffer s t new_sizes = impl_data (tensors s t)"

definition ex_mem :: "int memory" where
  "ex_mem =
     \<lparr> tensors = (\<lambda>p.
         if p = 10 then \<lparr>impl_sizes = [2, 2], impl_type = IntT, impl_data = 100\<rparr>
         else if p = 11 then \<lparr>impl_sizes = [2, 2], impl_type = IntT, impl_data = 100\<rparr>
         else if p = 12 then \<lparr>impl_sizes = [1, 1], impl_type = IntT, impl_data = 200\<rparr>
         else if p = 13 then \<lparr>impl_sizes = [2], impl_type = IntT, impl_data = 200\<rparr>
         else \<lparr>impl_sizes = [0], impl_type = IntT, impl_data = 300\<rparr>),
       cells = (\<lambda>x.
         if x = 100 then 1 else if x = 101 then 2 else if x = 102 then 3
         else if x = 103 then 4 else if x = 200 then 10 else if x = 201 then 20 else 0) \<rparr>"

section \<open>Facts about the shape classifier\<close>

lemma begin_le_length: "arrayref_begin_ignoring_leading_1s s \<le> length s"
  by (induction s) auto

lemma strip_is_drop:
  "strip_leading_1s s = drop (arrayref_begin_ignoring_leading_1s s) s"
  by (induction s) (auto simp: strip_leading_1s_def)

lemma length_strip:
  "length (strip_leading_1s s) = length s - arrayref_begin_ignoring_leading_1s s"
  by (simp add: strip_is_drop)

lemma strip_nth:
  "i < length (strip_leading_1s s) \<Longrightarrow>
   strip_leading_1s s ! i = s ! (arrayref_begin_ignoring_leading_1s s + i)"
  using begin_le_length [of s] by (simp add: strip_is_drop)

lemma sizes_match_iff_spec:
  "sizes_match_ignoring_leading_1s lhs rhs = equal_ignoring_leading_1s_spec lhs rhs"
proof -
  have "length (strip_leading_1s lhs) = length (strip_leading_1s rhs) \<Longrightarrow>
        list_all (\<lambda>i. lhs ! (arrayref_begin_ignoring_leading_1s lhs + i) =
                       rhs ! (arrayref_begin_ignoring_leading_1s rhs + i))
          [0..<length (strip_leading_1s lhs)] =
        list_all (\<lambda>i. strip_leading_1s lhs ! i = strip_leading_1s rhs ! i)
          [0..<length (strip_leading_1s lhs)]"
    by (simp add: list_all_iff strip_nth)
  then show ?thesis
    unfolding sizes_match_ignoring_leading_1s_def equal_ignoring_leading_1s_spec_def
      std_equal_def Let_def length_strip [symmetric]
    by blast
qed

lemma equal_spec_iff_eq:
  "equal_ignoring_leading_1s_spec lhs rhs = (strip_leading_1s lhs = strip_leading_1s rhs)"
  unfolding equal_ignoring_leading_1s_spec_def list_all_iff
  by (auto intro: nth_equalityI)

lemma select_broadcast_spec:
  "select_broadcast_2d_by_1d_optimized_path lhs rhs =
     (if length (strip_leading_1s (sizes lhs)) = 2 \<and>
         length (strip_leading_1s (sizes rhs)) = 1 \<and>
         strip_leading_1s (sizes lhs) ! 1 = strip_leading_1s (sizes rhs) ! 0
      then kBroadcast2dBy1d
      else if length (strip_leading_1s (sizes lhs)) = 1 \<and>
         length (strip_leading_1s (sizes rhs)) = 2 \<and>
         strip_leading_1s (sizes rhs) ! 1 = strip_leading_1s (sizes lhs) ! 0
      then kBroadcast2dBy1dReverseArguments
      else kNone)"
  unfolding select_broadcast_2d_by_1d_optimized_path_def Let_def
    length_strip [symmetric]
  by (simp add: strip_nth cong: conj_cong)

lemma select_broadcast_not_1d:
  "select_broadcast_2d_by_1d_optimized_path a b \<noteq> kTreatAs1d"
  by (simp add: select_broadcast_spec)

section \<open>Facts about the dispatch\<close>

declare opt_mul_out.simps [simp del]

lemma ET_SWITCH_REALB: "t \<noteq> HalfT \<Longrightarrow> ET_SWITCH REALB_TYPES t body = body"
  by (cases t) (simp_all add: ET_SWITCH_def REALB_TYPES_def)

lemma ET_SWITCH_REALHB: "ET_SWITCH REALHB_TYPES t body = body"
  by (cases t) (simp_all add: ET_SWITCH_def REALHB_TYPES_def)

lemma ET_SWITCH_SCALAR_OBJ: "ET_SWITCH SCALAR_OBJ_TYPES (get_scalar_dtype b) body = body"
  by (cases b) (simp_all add: ET_SWITCH_def SCALAR_OBJ_TYPES_def)

lemma ET_SWITCH_not_InvalidArgument:
  "body \<noteq> Inl InvalidArgument \<Longrightarrow> ET_SWITCH family t body \<noteq> Inl InvalidArgument"
  by (simp add: ET_SWITCH_def)

lemma numel_resized: "numel (t\<lparr>sizes := s\<rparr>) = prod_list s"
  by (simp add: numel_def)

lemma opt_mul_out_scalar:
  "numel b = 1 \<Longrightarrow> scalar_type a = scalar_type b \<Longrightarrow> scalar_type a = scalar_type out \<Longrightarrow>
   scalar_type a \<noteq> HalfT \<Longrightarrow> opt_mul_out c a b out = mul_scalar_tensor_path c a b out"
  by (simp add: opt_mul_out.simps)

lemma opt_mul_out_swap:
  "numel b \<noteq> 1 \<Longrightarrow> numel a = 1 \<Longrightarrow> opt_mul_out c a b out = opt_mul_out c b a out"
  by (subst opt_mul_out.simps) simp

lemma opt_mul_out_no_swap:
  "numel b = 1 \<or> numel a \<noteq> 1 \<Longrightarrow>
   \<not> (numel b = 1 \<and> scalar_type a = scalar_type b \<and> scalar_type a = scalar_type out \<and>
      scalar_type a \<noteq> HalfT) \<Longrightarrow>
   opt_mul_out c a b out = mul_dispatch c a b out"
  by (subst opt_mul_out.simps) auto

lemma mul_scalar_tensor_path_eq:
  "scalar_type a = scalar_type b \<Longrightarrow> scalar_type a \<noteq> HalfT \<Longrightarrow>
   mul_scalar_tensor_path c a b out =
     (if resize_ok c out (sizes a)
      then Inr (out\<lparr>sizes := sizes a,
                    data := map (\<lambda>i. multiply c (scalar_type a) (data a ! i) (data b ! 0))
                              [0..<numel a]\<rparr>)
      else Inl InvalidArgument)"
  by (simp add: mul_scalar_tensor_path_def resize_tensor_def ET_SWITCH_REALB
      static_cast_def vec_map_def numel_resized numel_def)

lemma map_index_nth: "n = length xs \<Longrightarrow> map (\<lambda>i. f (xs ! i)) [0..<n] = map f xs"
  by (rule nth_equalityI) simp_all

lemma mul_scalar_tensor_path_spec:
  "scalar_type a = scalar_type b \<Longrightarrow> scalar_type a \<noteq> HalfT \<Longrightarrow> wf_tensor a \<Longrightarrow>
   mul_scalar_tensor_path c a b out = scalar_broadcast_spec c a (data b ! 0) out"
  using map_index_nth [of "numel a" "data a" "\<lambda>x. multiply c (scalar_type a) x (data b ! 0)"]
  by (simp add: mul_scalar_tensor_path_eq scalar_broadcast_spec_def wf_tensor_def)

lemma resize_tensor_env [simp]:
  "resize_tensor (c\<lparr>promoteTypes := p, canCast := k\<rparr>) = resize_tensor c"
  by (simp add: resize_tensor_def fun_eq_iff)

lemma scalar_broadcast_spec_env:
  "scalar_broadcast_spec (c\<lparr>promoteTypes := p, canCast := k\<rparr>) = scalar_broadcast_spec c"
  by (simp add: scalar_broadcast_spec_def fun_eq_iff)

lemma select_kNone_no_scalar:
  "select_optimized_path a b out = kNone \<Longrightarrow> mul_dispatch c a b out = mul_general c a b out"
  by (simp add: mul_dispatch_def)

lemma select_type_mismatch:
  "\<not> (scalar_type a = scalar_type b \<and> scalar_type a = scalar_type out \<and>
      scalar_type a \<noteq> HalfT) \<Longrightarrow> select_optimized_path a b out = kNone"
  by (auto simp: select_optimized_path_def)

lemma mul_general_cannot_cast:
  "\<not> canCast c (promoteTypes c (scalar_type a) (scalar_type b) True) (scalar_type out) \<Longrightarrow>
   mul_general c a b out = Inl InvalidArgument"
  by (simp add: mul_general_def)

lemma mul_general_Inr_can_cast:
  "mul_general c a b out = Inr r \<Longrightarrow>
   canCast c (promoteTypes c (scalar_type a) (scalar_type b) True) (scalar_type out)"
  by (rule ccontr) (simp add: mul_general_cannot_cast)

lemma opt_mul_out_type_mismatch:
  assumes "\<not> (scalar_type a = scalar_type b \<and> scalar_type a = scalar_type out \<and>
      scalar_type a \<noteq> HalfT)"
  shows "opt_mul_out c a b out =
     (if numel b \<noteq> 1 \<and> numel a = 1 then mul_general c b a out else mul_general c a b out)"
proof (cases "numel b \<noteq> 1 \<and> numel a = 1")
  case True
  have m: "\<not> (scalar_type b = scalar_type a \<and> scalar_type b = scalar_type out \<and>
      scalar_type b \<noteq> HalfT)"
    using assms by auto
  have "opt_mul_out c a b out = opt_mul_out c b a out"
    using True by (intro opt_mul_out_swap) simp_all
  also have "\<dots> = mul_dispatch c b a out"
    using True m by (intro opt_mul_out_no_swap) auto
  also have "\<dots> = mul_general c b a out"
    using m by (intro select_kNone_no_scalar select_type_mismatch)
  finally show ?thesis unfolding if_P [OF True] .
next
  case False
  have "opt_mul_out c a b out = mul_dispatch c a b out"
    using False assms by (intro opt_mul_out_no_swap) auto
  also have "\<dots> = mul_general c a b out"
    using assms by (intro select_kNone_no_scalar select_type_mismatch)
  finally show ?thesis unfolding if_not_P [OF False] .
qed

lemma opt_mul_out_general:
  assumes "x = (if numel b \<noteq> 1 \<and> numel a = 1 then b else a)"
    and "y = (if numel b \<noteq> 1 \<and> numel a = 1 then a else b)"
    and "\<not> (numel y = 1 \<and> scalar_type x = scalar_type y \<and>
            scalar_type x = scalar_type out \<and> scalar_type x \<noteq> HalfT)"
    and "select_optimized_path x y out = kNone"
  shows "opt_mul_out c a b out = mul_general c x y out"
proof (cases "numel b \<noteq> 1 \<and> numel a = 1")
  case True
  have xy: "x = b" "y = a"
    using assms(1,2) True by auto
  have "opt_mul_out c a b out = opt_mul_out c b a out"
    using True by (intro opt_mul_out_swap) simp_all
  also have "\<dots> = mul_dispatch c b a out"
    using True assms(3) unfolding xy by (intro opt_mul_out_no_swap) auto
  also have "\<dots> = mul_general c b a out"
    using assms(4) unfolding xy by (rule select_kNone_no_scalar)
  finally show ?thesis unfolding xy .
next
  case False
  have xy: "x = a" "y = b"
    using assms(1,2) False by auto
  have "opt_mul_out c a b out = mul_dispatch c a b out"
    using False assms(3) unfolding xy by (intro opt_mul_out_no_swap) auto
  also have "\<dots> = mul_general c a b out"
    using assms(4) unfolding xy by (rule select_kNone_no_scalar)
  finally show ?thesis unfolding xy .
qed

section \<open>Facts about the row broadcast\<close>

lemma strip_Cons_ne_1: "strip_leading_1s s = x # r \<Longrightarrow> x \<noteq> 1"
  unfolding strip_leading_1s_def using hd_dropWhile [of "\<lambda>x. x = 1" s] by auto

lemma prod_list_strip: "prod_list (strip_leading_1s s) = prod_list s"
  by (induction s) (auto simp: strip_leading_1s_def)

lemma numel_strip: "numel t = prod_list (strip_leading_1s (sizes t))"
  by (simp add: numel_def prod_list_strip)

lemma strip_two:
  assumes "length (strip_leading_1s s) = 2"
  shows "strip_leading_1s s = [s ! (length s - 2), s ! (length s - 1)]"
proof -
  let ?k = "arrayref_begin_ignoring_leading_1s s"
  have k: "?k = length s - 2" "2 \<le> length s"
    using assms begin_le_length [of s] by (simp_all add: length_strip)
  show ?thesis
  proof (rule nth_equalityI)
    show "length (strip_leading_1s s) = length [s ! (length s - 2), s ! (length s - 1)]"
      using assms by simp
  next
    fix i assume "i < length (strip_leading_1s s)"
    then have i: "i < 2" using assms by simp
    then have "strip_leading_1s s ! i = s ! (length s - 2 + i)"
      using assms k by (simp add: strip_nth)
    moreover have "i = 0 \<or> i = 1" using i by auto
    moreover have "length s - 2 + 1 = length s - 1" using k(2) by simp
    ultimately show "strip_leading_1s s ! i = [s ! (length s - 2), s ! (length s - 1)] ! i"
      by auto
  qed
qed


lemma select_broadcast_shapes:
  assumes "select_optimized_path a b out = kBroadcast2dBy1d"
  shows "scalar_type a = scalar_type b" and "scalar_type a = scalar_type out"
    and "scalar_type a \<noteq> HalfT"
    and "length (strip_leading_1s (sizes a)) = 2"
    and "length (strip_leading_1s (sizes b)) = 1"
    and "strip_leading_1s (sizes a) ! 1 = strip_leading_1s (sizes b) ! 0"
proof -
  have t: "scalar_type a = scalar_type b \<and> scalar_type a = scalar_type out \<and>
         scalar_type a \<noteq> HalfT"
  proof (rule ccontr)
    assume "\<not> ?thesis"
    then have "select_optimized_path a b out = kNone" by (rule select_type_mismatch)
    with assms show False by simp
  qed
  then have "select_broadcast_2d_by_1d_optimized_path a b = kBroadcast2dBy1d"
    using assms by (auto simp: select_optimized_path_def Let_def split: if_splits)
  then have "length (strip_leading_1s (sizes a)) = 2 \<and>
      length (strip_leading_1s (sizes b)) = 1 \<and>
      strip_leading_1s (sizes a) ! 1 = strip_leading_1s (sizes b) ! 0"
    by (simp add: select_broadcast_spec split: if_splits)
  with t show "scalar_type a = scalar_type b" and "scalar_type a = scalar_type out"
    and "scalar_type a \<noteq> HalfT"
    and "length (strip_leading_1s (sizes a)) = 2"
    and "length (strip_leading_1s (sizes b)) = 1"
    and "strip_leading_1s (sizes a) ! 1 = strip_leading_1s (sizes b) ! 0"
    by blast+
qed

lemma select_broadcast_reverse_shapes:
  assumes "select_optimized_path a b out = kBroadcast2dBy1dReverseArguments"
  shows "scalar_type a = scalar_type b" and "scalar_type a = scalar_type out"
    and "scalar_type a \<noteq> HalfT"
    and "length (strip_leading_1s (sizes b)) = 2"
    and "length (strip_leading_1s (sizes a)) = 1"
    and "strip_leading_1s (sizes b) ! 1 = strip_leading_1s (sizes a) ! 0"
proof -
  have t: "scalar_type a = scalar_type b \<and> scalar_type a = scalar_type out \<and>
         scalar_type a \<noteq> HalfT"
  proof (rule ccontr)
    assume "\<not> ?thesis"
    then have "select_optimized_path a b out = kNone" by (rule select_type_mismatch)
    with assms show False by simp
  qed
  then have "select_broadcast_2d_by_1d_optimized_path a b = kBroadcast2dBy1dReverseArguments"
    using assms by (auto simp: select_optimized_path_def Let_def split: if_splits)
  then have "length (strip_leading_1s (sizes b)) = 2 \<and>
      length (strip_leading_1s (sizes a)) = 1 \<and>
      strip_leading_1s (sizes b) ! 1 = strip_leading_1s (sizes a) ! 0"
    by (simp add: select_broadcast_spec split: if_splits)
  with t show "scalar_type a = scalar_type b" and "scalar_type a = scalar_type out"
    and "scalar_type a \<noteq> HalfT"
    and "length (strip_leading_1s (sizes b)) = 2"
    and "length (strip_leading_1s (sizes a)) = 1"
    and "strip_leading_1s (sizes b) ! 1 = strip_leading_1s (sizes a) ! 0"
    by blast+
qed

text \<open>A matrix shape and a vector shape as the row broadcast needs them.\<close>

lemma matrix_vector_numel:
  assumes "length (strip_leading_1s (sizes m)) = 2"
    and "length (strip_leading_1s (sizes v)) = 1"
    and "strip_leading_1s (sizes m) ! 1 = strip_leading_1s (sizes v) ! 0"
  shows "numel m \<noteq> 1" and "numel v \<noteq> 1"
    and "numel m = sizes m ! (dim m - 2) * sizes m ! (dim m - 1)"
    and "numel v = sizes m ! (dim m - 1)"
proof -
  obtain R C where m: "strip_leading_1s (sizes m) = [R, C]"
    using assms(1) by (metis strip_two)
  obtain C' where v: "strip_leading_1s (sizes v) = [C']"
    using assms(2) by (cases "strip_leading_1s (sizes v)") auto
  have c: "C' = C" using assms(3) m v by simp
  have R: "R \<noteq> 1" using m by (rule strip_Cons_ne_1)
  have C: "C \<noteq> 1" using v c strip_Cons_ne_1 by blast
  have rc: "R = sizes m ! (dim m - 2)" "C = sizes m ! (dim m - 1)"
    using strip_two [OF assms(1)] m by (simp_all add: dim_def)
  show "numel m \<noteq> 1" using R by (simp add: numel_strip m)
  show "numel v \<noteq> 1" using C c by (simp add: numel_strip v)
  show "numel m = sizes m ! (dim m - 2) * sizes m ! (dim m - 1)"
    using rc by (simp add: numel_strip m)
  show "numel v = sizes m ! (dim m - 1)"
    using rc c by (simp add: numel_strip v)
qed


section \<open>Facts about broadcasting and the general path\<close>

lemma broadcast_sizes_rev_same: "broadcast_sizes_rev s s = Some s"
  by (induction s) auto

lemma broadcast_sizes_rev_sym: "broadcast_sizes_rev xs ys = broadcast_sizes_rev ys xs"
proof (induction xs ys rule: broadcast_sizes_rev.induct)
  case (1 ys)
  then show ?case by (cases ys) simp_all
next
  case (2 v va)
  then show ?case by simp
next
  case (3 x xs y ys)
  then show ?case by auto
qed

lemma get_broadcast_target_size_same: "get_broadcast_target_size s s = Some s"
  by (simp add: get_broadcast_target_size_def broadcast_sizes_rev_same)

lemma get_broadcast_target_size_sym:
  "get_broadcast_target_size s t = get_broadcast_target_size t s"
  by (simp add: get_broadcast_target_size_def broadcast_sizes_rev_sym [of "rev s"])

lemma broadcast_index_rev_same: "i < prod_list s \<Longrightarrow> broadcast_index_rev s s i = i"
proof (induction s arbitrary: i)
  case Nil
  then show ?case by simp
next
  case (Cons n s)
  have "i div n < prod_list s"
    using Cons.prems by (simp add: less_mult_imp_div_less mult.commute)
  then have "broadcast_index_rev s s (i div n) = i div n" by (rule Cons.IH)
  then show ?case by simp
qed

lemma linearize_access_indexes_same:
  "i < prod_list s \<Longrightarrow> linearize_access_indexes s s i = i"
  by (simp add: linearize_access_indexes_def broadcast_index_rev_same)


lemma mul_general_eq:
  "mul_general c a b out =
     (if \<not> canCast c (promoteTypes c (scalar_type a) (scalar_type b) True) (scalar_type out)
      then Inl InvalidArgument
      else case get_broadcast_target_size (sizes a) (sizes b) of
        None \<Rightarrow> Inl InvalidArgument
      | Some target \<Rightarrow>
          if resize_ok c out target
          then Inr (out\<lparr>sizes := target,
                 data := map (\<lambda>i.
                   static_cast c (promoteTypes c (scalar_type a) (scalar_type b) True)
                     (scalar_type out)
                     (multiply c (promoteTypes c (scalar_type a) (scalar_type b) True)
                        (static_cast c (scalar_type a)
                           (promoteTypes c (scalar_type a) (scalar_type b) True)
                           (data a ! linearize_access_indexes target (sizes a) i))
                        (static_cast c (scalar_type b)
                           (promoteTypes c (scalar_type a) (scalar_type b) True)
                           (data b ! linearize_access_indexes target (sizes b) i))))
                   [0..<prod_list target]\<rparr>)
          else Inl InvalidArgument)"
  by (simp add: mul_general_def Let_def resize_to_broadcast_target_size_def
      resize_tensor_def ET_SWITCH_REALHB apply_binary_elementwise_fn_def numel_resized
      split: option.split)

lemma mul_treat_as_1d_eq:
  "scalar_type out \<noteq> HalfT \<Longrightarrow>
   mul_treat_as_1d c a b out =
     (if resize_ok c out (sizes a)
      then Inr (out\<lparr>sizes := sizes a,
                    data := map (\<lambda>i. multiply c (scalar_type out) (data a ! i) (data b ! i))
                              [0..<numel a]\<rparr>)
      else Inl InvalidArgument)"
  by (simp add: mul_treat_as_1d_def resize_tensor_def ET_SWITCH_REALB vec_map2_def
      numel_resized numel_def)

lemma mul_general_same_shape:
  assumes "sizes a = sizes b" and "scalar_type a = scalar_type b"
    and "scalar_type a = scalar_type out"
    and "promoteTypes c (scalar_type a) (scalar_type a) True = scalar_type a"
    and "canCast c (scalar_type a) (scalar_type a)"
  shows "mul_general c a b out =
     (if resize_ok c out (sizes a)
      then Inr (out\<lparr>sizes := sizes a,
                    data := map (\<lambda>i. multiply c (scalar_type out) (data a ! i) (data b ! i))
                              [0..<numel a]\<rparr>)
      else Inl InvalidArgument)"
proof -
  have m: "map (\<lambda>i. multiply c (scalar_type b)
                  (data a ! linearize_access_indexes (sizes b) (sizes b) i)
                  (data b ! linearize_access_indexes (sizes b) (sizes b) i))
             [0..<prod_list (sizes b)] =
           map (\<lambda>i. multiply c (scalar_type b) (data a ! i) (data b ! i))
             [0..<prod_list (sizes b)]"
    by (rule map_cong) (simp_all add: linearize_access_indexes_same)
  have t: "scalar_type out = scalar_type b" using assms(2,3) by simp
  show ?thesis
    unfolding mul_general_eq
    using assms(4,5) unfolding assms(1) assms(2) t
    by (simp add: get_broadcast_target_size_same static_cast_def m numel_def assms(1))
qed

lemma map2_index:
  "length xs = n \<Longrightarrow> length ys = n \<Longrightarrow>
   map (\<lambda>i. F (xs ! i) (ys ! i)) [0..<n] = map2 F xs ys"
  by (rule nth_equalityI) simp_all

lemma mul_general_same_shape_elementwise:
  assumes "sizes a = sizes b" and "wf_tensor a" and "wf_tensor b"
    and "mul_general c a b out = Inr r"
  shows "sizes r = sizes a"
    and "data r =
      map2 (\<lambda>x y.
             static_cast c (promoteTypes c (scalar_type a) (scalar_type b) True)
               (scalar_type out)
               (multiply c (promoteTypes c (scalar_type a) (scalar_type b) True)
                  (static_cast c (scalar_type a)
                     (promoteTypes c (scalar_type a) (scalar_type b) True) x)
                  (static_cast c (scalar_type b)
                     (promoteTypes c (scalar_type a) (scalar_type b) True) y)))
        (data a) (data b)"
proof -
  let ?F = "\<lambda>x y.
             static_cast c (promoteTypes c (scalar_type a) (scalar_type b) True)
               (scalar_type out)
               (multiply c (promoteTypes c (scalar_type a) (scalar_type b) True)
                  (static_cast c (scalar_type a)
                     (promoteTypes c (scalar_type a) (scalar_type b) True) x)
                  (static_cast c (scalar_type b)
                     (promoteTypes c (scalar_type a) (scalar_type b) True) y))"
  have l: "length (data a) = prod_list (sizes b)" "length (data b) = prod_list (sizes b)"
    using assms(1,2,3) by (simp_all add: wf_tensor_def numel_def)
  have "map (\<lambda>i. ?F (data a ! linearize_access_indexes (sizes b) (sizes b) i)
                     (data b ! linearize_access_indexes (sizes b) (sizes b) i))
          [0..<prod_list (sizes b)] =
        map (\<lambda>i. ?F (data a ! i) (data b ! i)) [0..<prod_list (sizes b)]"
    by (rule map_cong) (simp_all add: linearize_access_indexes_same)
  also have "\<dots> = map2 ?F (data a) (data b)"
    using l by (rule map2_index)
  finally have m: "map (\<lambda>i. ?F (data a ! linearize_access_indexes (sizes b) (sizes b) i)
                     (data b ! linearize_access_indexes (sizes b) (sizes b) i))
          [0..<prod_list (sizes b)] = map2 ?F (data a) (data b)" .
  have r: "r = out\<lparr>sizes := sizes b, data := map2 ?F (data a) (data b)\<rparr>"
    using assms(4) unfolding mul_general_eq assms(1) get_broadcast_target_size_same
    by (simp add: m split: if_splits)
  show "sizes r = sizes a" using r assms(1) by simp
  show "data r = map2 ?F (data a) (data b)" using r by simp
qed

lemma opt_mul_out_same_shape:
  assumes "sizes a = sizes b" and "scalar_type a = scalar_type b"
    and "scalar_type a = scalar_type out \<and> scalar_type a \<noteq> HalfT \<longrightarrow>
         promoteTypes c (scalar_type a) (scalar_type a) True = scalar_type a \<and>
         canCast c (scalar_type a) (scalar_type a)"
  shows "opt_mul_out c a b out = mul_general c a b out"
proof (cases "scalar_type a = scalar_type out \<and> scalar_type a \<noteq> HalfT")
  case False
  then have m: "\<not> (scalar_type a = scalar_type b \<and> scalar_type a = scalar_type out \<and>
      scalar_type a \<noteq> HalfT)"
    by blast
  have n: "\<not> (numel b \<noteq> 1 \<and> numel a = 1)"
    using assms(1) by (simp add: numel_def)
  show ?thesis
    unfolding opt_mul_out_type_mismatch [OF m] if_not_P [OF n] ..
next
  case True
  then have t: "scalar_type a = scalar_type out" "scalar_type a \<noteq> HalfT"
    "scalar_type out \<noteq> HalfT" by auto
  have e: "promoteTypes c (scalar_type a) (scalar_type a) True = scalar_type a"
    "canCast c (scalar_type a) (scalar_type a)"
    using assms(3) True by blast+
  note g = mul_general_same_shape [OF assms(1,2) t(1) e]
  have nn: "numel a = numel b" using assms(1) by (simp add: numel_def)
  show ?thesis
  proof (cases "numel b = 1")
    case True
    have "opt_mul_out c a b out = mul_scalar_tensor_path c a b out"
      using True assms(2) t by (intro opt_mul_out_scalar)
    also have "\<dots> = mul_general c a b out"
      unfolding g mul_scalar_tensor_path_eq [OF assms(2) t(2)]
      using True nn t(1) by simp
    finally show ?thesis .
  next
    case False
    have p: "select_optimized_path a b out = kTreatAs1d"
      using assms(1,2) t by (simp add: select_optimized_path_def)
    have "opt_mul_out c a b out = mul_dispatch c a b out"
      using False nn by (intro opt_mul_out_no_swap) simp_all
    also have "\<dots> = mul_treat_as_1d c a b out"
      by (simp add: mul_dispatch_def p)
    also have "\<dots> = mul_general c a b out"
      unfolding g mul_treat_as_1d_eq [OF t(3)] ..
    finally show ?thesis .
  qed
qed


lemma digit_less: "k < P \<Longrightarrow> m < x \<Longrightarrow> m + x * k < x * (P::nat)"
proof -
  assume k: "k < P" and m: "m < x"
  have "m + x * k < x + x * k" using m by simp
  also have "\<dots> = x * Suc k" by simp
  also have "\<dots> \<le> x * P" using k by (intro mult_le_mono2) simp
  finally show ?thesis .
qed

lemma broadcast_index_rev_Nil [simp]: "broadcast_index_rev ns [] i = 0"
  by (cases ns) simp_all

lemma broadcast_index_rev_less:
  "broadcast_sizes_rev xs ys = Some ns \<Longrightarrow> i < prod_list ns \<Longrightarrow>
   broadcast_index_rev ns xs i < prod_list xs \<and> broadcast_index_rev ns ys i < prod_list ys"
proof (induction xs ys arbitrary: ns i rule: broadcast_sizes_rev.induct)
  case (1 ys)
  then show ?case by (simp add: broadcast_index_rev_same)
next
  case (2 v va)
  then show ?case by (simp add: broadcast_index_rev_same)
next
  case (3 x xs y ys)
  define n where "n = (if x = 1 then y else x)"
  from "3.prems"(1) have c: "x = y \<or> x = 1 \<or> y = 1"
    by (simp split: if_splits)
  with "3.prems"(1) obtain r where r: "broadcast_sizes_rev xs ys = Some r"
    and ns: "ns = n # r"
    by (auto simp: n_def split: if_splits)
  have i: "i < n * prod_list r" using "3.prems"(2) ns by simp
  then have n0: "0 < n" by (cases "n = 0") auto
  have d: "i div n < prod_list r"
    using i by (simp add: less_mult_imp_div_less mult.commute)
  have IH: "broadcast_index_rev r xs (i div n) < prod_list xs"
    "broadcast_index_rev r ys (i div n) < prod_list ys"
    using "3.IH" [OF c r d] by simp_all
  have X: "(if x = 1 then 0 else i mod n) + x * broadcast_index_rev r xs (i div n)
      < x * prod_list xs"
  proof (cases "x = 1")
    case True
    then show ?thesis using IH(1) by simp
  next
    case False
    then have "n = x" by (simp add: n_def)
    then have "i mod n < x" using n0 by simp
    then show ?thesis using False IH(1) by (simp add: digit_less)
  qed
  have Y: "(if y = 1 then 0 else i mod n) + y * broadcast_index_rev r ys (i div n)
      < y * prod_list ys"
  proof (cases "y = 1")
    case True
    then show ?thesis using IH(2) by simp
  next
    case False
    then have "n = y" using c by (auto simp: n_def)
    then have "i mod n < y" using n0 by simp
    then show ?thesis using False IH(2) by (simp add: digit_less)
  qed
  show ?case unfolding ns using X Y by simp
qed

lemma linearize_access_indexes_less:
  assumes "get_broadcast_target_size a_sizes b_sizes = Some target"
    and "i < prod_list target"
  shows "linearize_access_indexes target a_sizes i < prod_list a_sizes"
    and "linearize_access_indexes target b_sizes i < prod_list b_sizes"
proof -
  obtain ns where ns: "broadcast_sizes_rev (rev a_sizes) (rev b_sizes) = Some ns"
    and t: "target = rev ns"
    using assms(1) by (auto simp: get_broadcast_target_size_def)
  have "i < prod_list ns" using assms(2) t by simp
  from broadcast_index_rev_less [OF ns this]
  show "linearize_access_indexes target a_sizes i < prod_list a_sizes"
    and "linearize_access_indexes target b_sizes i < prod_list b_sizes"
    by (simp_all add: linearize_access_indexes_def t)
qed


section \<open>Facts about swapping the operands\<close>

lemma flatten_rule_spec_sym:
  "flatten_rule_spec b a out = flatten_rule_spec a b out"
  unfolding flatten_rule_spec_def equal_spec_iff_eq numel_def by metis

lemma select_optimized_path_spec:
  "select_optimized_path a b out =
     (if scalar_type a \<noteq> scalar_type b \<or> scalar_type a \<noteq> scalar_type out \<or>
         scalar_type a = HalfT then kNone
      else if flatten_rule_spec a b out then kTreatAs1d
      else select_broadcast_2d_by_1d_optimized_path a b)"
  unfolding select_optimized_path_def Let_def flatten_rule_spec_def sizes_match_iff_spec
  by (rule if_cong [OF refl refl]) (rule if_cong, auto)

lemma select_broadcast_swap:
  "select_broadcast_2d_by_1d_optimized_path b a =
     (case select_broadcast_2d_by_1d_optimized_path a b of
        kBroadcast2dBy1d \<Rightarrow> kBroadcast2dBy1dReverseArguments
      | kBroadcast2dBy1dReverseArguments \<Rightarrow> kBroadcast2dBy1d
      | p \<Rightarrow> p)"
  by (simp add: select_broadcast_spec)

lemma select_optimized_path_swap:
  "select_optimized_path b a out =
     (case select_optimized_path a b out of
        kBroadcast2dBy1d \<Rightarrow> kBroadcast2dBy1dReverseArguments
      | kBroadcast2dBy1dReverseArguments \<Rightarrow> kBroadcast2dBy1d
      | p \<Rightarrow> p)"
proof -
  have t: "(scalar_type b \<noteq> scalar_type a \<or> scalar_type b \<noteq> scalar_type out \<or>
         scalar_type b = HalfT) =
        (scalar_type a \<noteq> scalar_type b \<or> scalar_type a \<noteq> scalar_type out \<or>
         scalar_type a = HalfT)"
    by auto
  show ?thesis
    unfolding select_optimized_path_spec [of b a] t flatten_rule_spec_sym [of b a]
      select_broadcast_swap [of b a]
    unfolding select_optimized_path_spec [of a b]
    by (simp split: ElementwiseOptimizedPath.splits)
qed


lemma mul_broadcast_swap:
  "mul_broadcast_2d_by_1d c kBroadcast2dBy1dReverseArguments b a out =
   mul_broadcast_2d_by_1d c kBroadcast2dBy1d a b out"
  by (simp add: mul_broadcast_2d_by_1d_def)

lemma mul_general_comm:
  assumes "\<forall>t x y. multiply c t x y = multiply c t y x"
    and "\<forall>s t. promoteTypes c s t True = promoteTypes c t s True"
  shows "mul_general c b a out = mul_general c a b out"
proof -
  have p: "promoteTypes c (scalar_type b) (scalar_type a) True =
           promoteTypes c (scalar_type a) (scalar_type b) True"
    using assms(2) by blast
  have m: "\<And>t x y.
      multiply c t (static_cast c (scalar_type b) t x) (static_cast c (scalar_type a) t y) =
      multiply c t (static_cast c (scalar_type a) t y) (static_cast c (scalar_type b) t x)"
    using assms(1) by blast
  show ?thesis
    unfolding mul_general_eq [of c b a] p get_broadcast_target_size_sym [of "sizes b"] m
    unfolding mul_general_eq [of c a b] ..
qed

lemma select_treat_as_1d_numel:
  assumes "select_optimized_path a b out = kTreatAs1d"
  shows "numel a = numel b" and "scalar_type out \<noteq> HalfT"
proof -
  have h: "\<not> (scalar_type a \<noteq> scalar_type b \<or> scalar_type a \<noteq> scalar_type out \<or>
         scalar_type a = HalfT)" "flatten_rule_spec a b out"
    using assms unfolding select_optimized_path_spec
    by (auto simp: select_broadcast_not_1d split: if_splits)
  show "numel a = numel b"
    using h(2) by (auto simp: flatten_rule_spec_def numel_def)
  show "scalar_type out \<noteq> HalfT"
    using h(1) by auto
qed

lemma mul_treat_as_1d_comm:
  assumes "\<forall>t x y. multiply c t x y = multiply c t y x"
    and "numel a = numel b" and "scalar_type out \<noteq> HalfT"
    and "mul_treat_as_1d c a b out = Inr r1" and "mul_treat_as_1d c b a out = Inr r2"
  shows "data r1 = data r2 \<and> numel r1 = numel r2"
proof -
  have m: "\<And>t i. multiply c t (data b ! i) (data a ! i) =
      multiply c t (data a ! i) (data b ! i)"
    using assms(1) by blast
  have 1: "r1 = out\<lparr>sizes := sizes a,
      data := map (\<lambda>i. multiply c (scalar_type out) (data a ! i) (data b ! i))
                [0..<numel a]\<rparr>"
    using assms(4) unfolding mul_treat_as_1d_eq [OF assms(3)]
    by (simp split: if_splits)
  have 2: "r2 = out\<lparr>sizes := sizes b,
      data := map (\<lambda>i. multiply c (scalar_type out) (data a ! i) (data b ! i))
                [0..<numel a]\<rparr>"
    using assms(5) unfolding mul_treat_as_1d_eq [OF assms(3)] assms(2) [symmetric] m
    by (simp split: if_splits)
  show ?thesis
    using assms(2) unfolding 1 2 by (simp add: numel_def)
qed

lemma mul_dispatch_comm:
  assumes "\<forall>t x y. multiply c t x y = multiply c t y x"
    and "\<forall>s t. promoteTypes c s t True = promoteTypes c t s True"
    and "mul_dispatch c a b out = Inr r1" and "mul_dispatch c b a out = Inr r2"
  shows "data r1 = data r2 \<and> numel r1 = numel r2"
proof (cases "select_optimized_path a b out")
  case kNone
  then have "select_optimized_path b a out = kNone"
    by (simp add: select_optimized_path_swap [of b a])
  then have "mul_dispatch c b a out = mul_general c b a out"
    by (rule select_kNone_no_scalar)
  also have "\<dots> = mul_general c a b out"
    using assms(1,2) by (rule mul_general_comm)
  also have "\<dots> = mul_dispatch c a b out"
    using kNone by (simp add: select_kNone_no_scalar)
  finally show ?thesis using assms(3,4) by simp
next
  case kTreatAs1d
  then have s: "select_optimized_path b a out = kTreatAs1d"
    by (simp add: select_optimized_path_swap [of b a])
  have "mul_treat_as_1d c a b out = Inr r1" "mul_treat_as_1d c b a out = Inr r2"
    using assms(3,4) kTreatAs1d s by (simp_all add: mul_dispatch_def)
  then show ?thesis
    using mul_treat_as_1d_comm [OF assms(1) select_treat_as_1d_numel [OF kTreatAs1d]]
    by blast
next
  case kBroadcast2dBy1d
  then have s: "select_optimized_path b a out = kBroadcast2dBy1dReverseArguments"
    by (simp add: select_optimized_path_swap [of b a])
  have "mul_dispatch c b a out = mul_dispatch c a b out"
    by (simp add: mul_dispatch_def s kBroadcast2dBy1d mul_broadcast_swap)
  then show ?thesis using assms(3,4) by simp
next
  case kBroadcast2dBy1dReverseArguments
  then have s: "select_optimized_path b a out = kBroadcast2dBy1d"
    by (simp add: select_optimized_path_swap [of b a])
  have "mul_dispatch c b a out = mul_dispatch c a b out"
    by (simp add: mul_dispatch_def s kBroadcast2dBy1dReverseArguments mul_broadcast_swap)
  then show ?thesis using assms(3,4) by simp
qed

lemma mul_scalar_tensor_path_comm:
  assumes "\<forall>t x y. multiply c t x y = multiply c t y x"
    and "numel a = 1" and "numel b = 1"
    and "scalar_type a = scalar_type b" and "scalar_type a \<noteq> HalfT"
    and "mul_scalar_tensor_path c a b out = Inr r1"
    and "mul_scalar_tensor_path c b a out = Inr r2"
  shows "data r1 = data r2 \<and> numel r1 = numel r2"
proof -
  have m: "multiply c (scalar_type b) (data b ! 0) (data a ! 0) =
           multiply c (scalar_type b) (data a ! 0) (data b ! 0)"
    using assms(1) by blast
  have t: "scalar_type b = scalar_type a" "scalar_type b \<noteq> HalfT"
    using assms(4,5) by simp_all
  have 1: "r1 = out\<lparr>sizes := sizes a,
      data := [multiply c (scalar_type b) (data a ! 0) (data b ! 0)]\<rparr>"
    using assms(6) unfolding mul_scalar_tensor_path_eq [OF assms(4,5)] assms(2)
    by (simp add: assms(4) split: if_splits)
  have 2: "r2 = out\<lparr>sizes := sizes b,
      data := [multiply c (scalar_type b) (data a ! 0) (data b ! 0)]\<rparr>"
    using assms(7) unfolding mul_scalar_tensor_path_eq [OF t] assms(3)
    by (simp add: m split: if_splits)
  show ?thesis
    using assms(2,3) unfolding 1 2 by (simp add: numel_def)
qed

lemma promoteTypes_ref_sym: "promoteTypes_ref s t h = promoteTypes_ref t s h"
  by (cases s; cases t; simp add: promoteTypes_ref_def)

section \<open>The path selector\<close>

text \<open>
  C2. The selector answers with the flat path exactly when the three element types are
  one and the same type other than the reduced-precision kind and the spec's flat rule
  holds: the raw shapes are equal, or the inputs' element counts are equal and either the
  output's element count equals them or the shapes are equal ignoring leading 1s. A
  mismatch between any two of the three types gives no optimisation, whatever the shapes.
\<close>

theorem select_optimized_path_flatten_iff:
  "(select_optimized_path a b out = kTreatAs1d) =
     (scalar_type a = scalar_type b \<and> scalar_type a = scalar_type out \<and>
      scalar_type b = scalar_type out \<and> scalar_type a \<noteq> HalfT \<and>
      flatten_rule_spec a b out)
   \<and> (scalar_type a \<noteq> scalar_type b \<or> scalar_type a \<noteq> scalar_type out \<or>
       scalar_type b \<noteq> scalar_type out
       \<longrightarrow> select_optimized_path a b out = kNone)"
  unfolding select_optimized_path_def Let_def flatten_rule_spec_def
    sizes_match_iff_spec
  by (auto simp: select_broadcast_not_1d)

theorem select_optimized_path_flatten_iff_witness:
  "select_optimized_path ex_v116 ex_v6 ex_out = kTreatAs1d
   \<and> select_optimized_path ex_v116 ex_f6 ex_out = kNone"
proof -
  have s: "strip_leading_1s (sizes ex_v116) = [6]" "strip_leading_1s (sizes ex_v6) = [6]"
    by (simp_all add: strip_leading_1s_def ex_v116_def ex_v6_def)
  have r: "flatten_rule_spec ex_v116 ex_v6 ex_out"
    unfolding flatten_rule_spec_def equal_spec_iff_eq s
    by (simp add: numel_def ex_v116_def ex_v6_def)
  have t: "scalar_type ex_v116 = IntT" "scalar_type ex_v6 = IntT" "scalar_type ex_out = IntT"
    "scalar_type ex_f6 = FloatT"
    by (simp_all add: ex_v116_def ex_v6_def ex_out_def ex_f6_def)
  show ?thesis
    using r select_optimized_path_flatten_iff [of ex_v116 ex_v6 ex_out]
      select_optimized_path_flatten_iff [of ex_v116 ex_f6 ex_out]
    by (simp add: t)
qed

text \<open>
  C3. With one common element type other than the reduced-precision kind and shapes
  outside the flat rule, the selector answers with the row broadcast exactly when the
  left shape strips to rank 2, the right shape strips to rank 1 and the left shape's
  trailing extent is the right shape's extent; it answers with the reversed variant
  exactly in the mirrored situation; and a shape that strips to rank 0 gives no
  optimisation.
\<close>

theorem select_optimized_path_broadcast_iff:
  assumes "scalar_type a = scalar_type b" and "scalar_type a = scalar_type out"
    and "scalar_type a \<noteq> HalfT" and "\<not> flatten_rule_spec a b out"
  shows "((select_optimized_path a b out = kBroadcast2dBy1d) =
          (length (strip_leading_1s (sizes a)) = 2 \<and>
           length (strip_leading_1s (sizes b)) = 1 \<and>
           strip_leading_1s (sizes a) ! 1 = strip_leading_1s (sizes b) ! 0))
       \<and> ((select_optimized_path a b out = kBroadcast2dBy1dReverseArguments) =
          (length (strip_leading_1s (sizes a)) = 1 \<and>
           length (strip_leading_1s (sizes b)) = 2 \<and>
           strip_leading_1s (sizes b) ! 1 = strip_leading_1s (sizes a) ! 0))
       \<and> (strip_leading_1s (sizes a) = [] \<or> strip_leading_1s (sizes b) = []
            \<longrightarrow> select_optimized_path a b out = kNone)"
proof -
  have "select_optimized_path a b out = select_broadcast_2d_by_1d_optimized_path a b"
    using assms
    unfolding select_optimized_path_def Let_def flatten_rule_spec_def sizes_match_iff_spec
    by auto
  then show ?thesis
    by (auto simp: select_broadcast_spec)
qed


theorem select_optimized_path_broadcast_iff_witness:
  "select_optimized_path ex_m22 ex_v2 ex_out = kBroadcast2dBy1d
   \<and> select_optimized_path ex_v2 ex_m22 ex_out = kBroadcast2dBy1dReverseArguments
   \<and> select_optimized_path ex_m22 ex_ones ex_out = kNone"
proof -
  have s: "strip_leading_1s (sizes ex_m22) = [2, 2]" "strip_leading_1s (sizes ex_v2) = [2]"
    "strip_leading_1s (sizes ex_ones) = []"
    by (simp_all add: strip_leading_1s_def ex_m22_def ex_v2_def ex_ones_def)
  have t: "scalar_type ex_m22 = IntT" "scalar_type ex_v2 = IntT" "scalar_type ex_out = IntT"
    "scalar_type ex_ones = IntT"
    by (simp_all add: ex_m22_def ex_v2_def ex_out_def ex_ones_def)
  have n: "\<not> flatten_rule_spec ex_m22 ex_v2 ex_out" "\<not> flatten_rule_spec ex_v2 ex_m22 ex_out"
    "\<not> flatten_rule_spec ex_m22 ex_ones ex_out"
    unfolding flatten_rule_spec_def equal_spec_iff_eq s
    by (simp_all add: numel_def ex_m22_def ex_v2_def ex_ones_def ex_out_def)
  show ?thesis
    using select_optimized_path_broadcast_iff [of ex_m22 ex_v2 ex_out, OF _ _ _ n(1)]
      select_optimized_path_broadcast_iff [of ex_v2 ex_m22 ex_out, OF _ _ _ n(2)]
      select_optimized_path_broadcast_iff [of ex_m22 ex_ones ex_out, OF _ _ _ n(3)]
    by (simp add: t s)
qed

section \<open>The tensor-tensor operator: fast paths\<close>

text \<open>
  C4. When the right operand has a single element and both operand types are the output
  type, which is not the reduced-precision kind, the call is the scalar broadcast: the
  output takes the left operand's shape and every element of the left operand is
  multiplied by the single value (or the call fails with InvalidArgument when the resize
  is refused). The promotion table and the cast rule play no part: replacing them leaves
  the result as it is. When only the left operand has a single element, the call is the
  call with the operands swapped, and the swapped call takes a branch without a further
  swap: the scalar broadcast over the right operand when the types are homogeneous, the
  dispatch on the swapped operands otherwise.
\<close>

theorem opt_mul_out_scalar_shortcut:
  assumes "wf_tensor a" and "wf_tensor b"
  shows "(numel b = 1 \<and> scalar_type a = scalar_type b \<and> scalar_type a = scalar_type out \<and>
          scalar_type a \<noteq> HalfT \<longrightarrow>
            opt_mul_out c a b out = scalar_broadcast_spec c a (data b ! 0) out \<and>
            opt_mul_out (c\<lparr>promoteTypes := p, canCast := k\<rparr>) a b out =
              opt_mul_out c a b out)
       \<and> (numel a = 1 \<and> numel b \<noteq> 1 \<longrightarrow>
            opt_mul_out c a b out = opt_mul_out c b a out \<and>
            opt_mul_out c b a out =
              (if scalar_type b = scalar_type a \<and> scalar_type b = scalar_type out \<and>
                  scalar_type b \<noteq> HalfT
               then scalar_broadcast_spec c b (data a ! 0) out
               else mul_dispatch c b a out))"
proof (intro conjI impI)
  assume h: "numel b = 1 \<and> scalar_type a = scalar_type b \<and>
    scalar_type a = scalar_type out \<and> scalar_type a \<noteq> HalfT"
  then have e: "\<And>c'. opt_mul_out c' a b out = scalar_broadcast_spec c' a (data b ! 0) out"
    using opt_mul_out_scalar [of b a out] mul_scalar_tensor_path_spec [of a b _ out] assms
    by metis
  show "opt_mul_out c a b out = scalar_broadcast_spec c a (data b ! 0) out"
    by (rule e)
  show "opt_mul_out (c\<lparr>promoteTypes := p, canCast := k\<rparr>) a b out =
      opt_mul_out c a b out"
    by (simp only: e scalar_broadcast_spec_env)
next
  assume h: "numel a = 1 \<and> numel b \<noteq> 1"
  then show "opt_mul_out c a b out = opt_mul_out c b a out"
    using opt_mul_out_swap [of b a c out] by blast
  show "opt_mul_out c b a out =
      (if scalar_type b = scalar_type a \<and> scalar_type b = scalar_type out \<and>
          scalar_type b \<noteq> HalfT
       then scalar_broadcast_spec c b (data a ! 0) out
       else mul_dispatch c b a out)"
  proof (cases "scalar_type b = scalar_type a \<and> scalar_type b = scalar_type out \<and>
          scalar_type b \<noteq> HalfT")
    case True
    then have "opt_mul_out c b a out = scalar_broadcast_spec c b (data a ! 0) out"
      using h opt_mul_out_scalar [of a b out c] mul_scalar_tensor_path_spec [of b a c out]
        assms
      by metis
    then show ?thesis unfolding if_P [OF True] .
  next
    case False
    then have "opt_mul_out c b a out = mul_dispatch c b a out"
      using h opt_mul_out_no_swap [of a b out c] by blast
    then show ?thesis unfolding if_not_P [OF False] .
  qed
qed

theorem opt_mul_out_scalar_shortcut_witness:
  "opt_mul_out exact_env ex_m22 ex_ones ex_out =
     Inr \<lparr>sizes = [2, 2], scalar_type = IntT, data = [7, 14, 21, 28]\<rparr>
   \<and> opt_mul_out exact_env ex_ones ex_m22 ex_out =
     Inr \<lparr>sizes = [2, 2], scalar_type = IntT, data = [7, 14, 21, 28]\<rparr>"
proof -
  have w: "wf_tensor ex_m22" "wf_tensor ex_ones"
    by (simp_all add: wf_tensor_def numel_def ex_m22_def ex_ones_def)
  have n: "numel ex_ones = 1" "numel ex_m22 \<noteq> 1"
    by (simp_all add: numel_def ex_m22_def ex_ones_def)
  have t: "scalar_type ex_m22 = scalar_type ex_ones"
    "scalar_type ex_m22 = scalar_type ex_out" "scalar_type ex_m22 \<noteq> HalfT"
    by (simp_all add: ex_m22_def ex_ones_def ex_out_def)
  have v: "scalar_broadcast_spec exact_env ex_m22 (data ex_ones ! 0) ex_out =
      Inr \<lparr>sizes = [2, 2], scalar_type = IntT, data = [7, 14, 21, 28]\<rparr>"
    by (simp add: scalar_broadcast_spec_def exact_env_def ex_m22_def ex_ones_def ex_out_def)
  have 1: "opt_mul_out exact_env ex_m22 ex_ones ex_out =
      scalar_broadcast_spec exact_env ex_m22 (data ex_ones ! 0) ex_out"
    using opt_mul_out_scalar_shortcut [OF w, of ex_out exact_env] n t by blast
  have 2: "opt_mul_out exact_env ex_ones ex_m22 ex_out =
      opt_mul_out exact_env ex_m22 ex_ones ex_out"
    using opt_mul_out_scalar_shortcut [OF w(2) w(1), of ex_out exact_env] n by blast
  show ?thesis
    by (simp only: 2 1 v)
qed




section \<open>The tensor-tensor operator: the general path\<close>

text \<open>
  C5. Let \<open>x\<close> and \<open>y\<close> be the operands in the order in which they reach the dispatch
  (swapped when only the left one has a single element). When the scalar broadcast does
  not apply and the selector gives no optimisation, the call is the general path on
  \<open>x\<close> and \<open>y\<close>: the common type is the promotion of the two input types with
  half-to-float widening; when the cast rule does not let the output type be reached from
  it, the call fails with InvalidArgument; and a call that succeeds has an output type the
  cast rule allows. In particular a float32 by float32 product into an int32 output
  fails with InvalidArgument, for every promotion table that keeps float32 with float32
  at float32 and every cast rule without a float32-to-int32 cast.
\<close>

theorem opt_mul_out_general_cast_check:
  "(x = (if numel b \<noteq> 1 \<and> numel a = 1 then b else a) \<and>
    y = (if numel b \<noteq> 1 \<and> numel a = 1 then a else b) \<and>
    \<not> (numel y = 1 \<and> scalar_type x = scalar_type y \<and>
       scalar_type x = scalar_type out \<and> scalar_type x \<noteq> HalfT) \<and>
    select_optimized_path x y out = kNone \<longrightarrow>
      opt_mul_out c a b out = mul_general c x y out \<and>
      (\<not> canCast c (promoteTypes c (scalar_type x) (scalar_type y) True) (scalar_type out)
         \<longrightarrow> opt_mul_out c a b out = Inl InvalidArgument) \<and>
      (\<forall>r. opt_mul_out c a b out = Inr r \<longrightarrow>
         canCast c (promoteTypes c (scalar_type x) (scalar_type y) True) (scalar_type out)))
   \<and> (scalar_type a = FloatT \<and> scalar_type b = FloatT \<and> scalar_type out = IntT \<and>
       promoteTypes c FloatT FloatT True = FloatT \<and> \<not> canCast c FloatT IntT \<longrightarrow>
         opt_mul_out c a b out = Inl InvalidArgument)"
proof (intro conjI impI)
  assume h: "x = (if numel b \<noteq> 1 \<and> numel a = 1 then b else a) \<and>
    y = (if numel b \<noteq> 1 \<and> numel a = 1 then a else b) \<and>
    \<not> (numel y = 1 \<and> scalar_type x = scalar_type y \<and>
       scalar_type x = scalar_type out \<and> scalar_type x \<noteq> HalfT) \<and>
    select_optimized_path x y out = kNone"
  then show g: "opt_mul_out c a b out = mul_general c x y out"
    by (intro opt_mul_out_general) blast+
  show "\<forall>r. opt_mul_out c a b out = Inr r \<longrightarrow>
         canCast c (promoteTypes c (scalar_type x) (scalar_type y) True) (scalar_type out)"
    unfolding g using mul_general_Inr_can_cast by blast
  assume "\<not> canCast c (promoteTypes c (scalar_type x) (scalar_type y) True) (scalar_type out)"
  then show "opt_mul_out c a b out = Inl InvalidArgument"
    unfolding g by (rule mul_general_cannot_cast)
next
  assume h: "scalar_type a = FloatT \<and> scalar_type b = FloatT \<and> scalar_type out = IntT \<and>
       promoteTypes c FloatT FloatT True = FloatT \<and> \<not> canCast c FloatT IntT"
  then have m: "\<not> (scalar_type a = scalar_type b \<and> scalar_type a = scalar_type out \<and>
      scalar_type a \<noteq> HalfT)"
    by simp
  from h have "mul_general c a b out = Inl InvalidArgument"
    "mul_general c b a out = Inl InvalidArgument"
    by (simp_all add: mul_general_cannot_cast)
  then show "opt_mul_out c a b out = Inl InvalidArgument"
    unfolding opt_mul_out_type_mismatch [OF m] by simp
qed

theorem opt_mul_out_general_cast_check_witness:
  "opt_mul_out exact_env ex_fm22 ex_fn22 ex_out = Inl InvalidArgument
   \<and> select_optimized_path ex_fm22 ex_fn22 ex_out = kNone
   \<and> \<not> canCast exact_env
         (promoteTypes exact_env (scalar_type ex_fm22) (scalar_type ex_fn22) True)
         (scalar_type ex_out)"
proof -
  have t: "scalar_type ex_fm22 = FloatT" "scalar_type ex_fn22 = FloatT"
    "scalar_type ex_out = IntT"
    by (simp_all add: ex_fm22_def ex_fn22_def ex_out_def)
  have n: "numel ex_fm22 = 4" "numel ex_fn22 = 4"
    by (simp_all add: numel_def ex_fm22_def ex_fn22_def)
  have k: "select_optimized_path ex_fm22 ex_fn22 ex_out = kNone"
    by (simp add: select_optimized_path_def t)
  have p: "promoteTypes exact_env FloatT FloatT True = FloatT"
    "\<not> canCast exact_env FloatT IntT"
    by (simp_all add: exact_env_def promoteTypes_ref_def canCast_ref_def
        isFloatingType_def isIntegralType_def)
  have "opt_mul_out exact_env ex_fm22 ex_fn22 ex_out = Inl InvalidArgument"
    using opt_mul_out_general_cast_check
        [of ex_fm22 ex_fn22 ex_fm22 ex_fn22 ex_out exact_env] p
    unfolding t by blast
  then show ?thesis
    using k p by (simp add: t)
qed

text \<open>
  C1. For two inputs of the same shape and the same element type, the call is the general
  path, whichever branch the dispatch takes (the scalar broadcast when both have a single
  element, the flat path otherwise, or the general path itself when the output type
  differs or the type is the reduced-precision kind); and for well-formed inputs a
  successful call gives the first operand's shape and, position by position, the product
  of the two elements computed in the promoted type and cast to the output type. Where a
  fast path fires, the promotion table is taken to keep a type with itself and the cast
  rule to let a type reach itself.
\<close>

theorem opt_mul_out_same_shape_general:
  assumes "sizes a = sizes b" and "scalar_type a = scalar_type b"
    and "scalar_type a = scalar_type out \<and> scalar_type a \<noteq> HalfT \<longrightarrow>
         promoteTypes c (scalar_type a) (scalar_type a) True = scalar_type a \<and>
         canCast c (scalar_type a) (scalar_type a)"
  shows "opt_mul_out c a b out = mul_general c a b out
       \<and> (wf_tensor a \<and> wf_tensor b \<longrightarrow>
           (\<forall>r. opt_mul_out c a b out = Inr r \<longrightarrow>
              sizes r = sizes a \<and>
              data r =
                map2 (\<lambda>x y.
                   static_cast c (promoteTypes c (scalar_type a) (scalar_type b) True)
                     (scalar_type out)
                     (multiply c (promoteTypes c (scalar_type a) (scalar_type b) True)
                        (static_cast c (scalar_type a)
                           (promoteTypes c (scalar_type a) (scalar_type b) True) x)
                        (static_cast c (scalar_type b)
                           (promoteTypes c (scalar_type a) (scalar_type b) True) y)))
                  (data a) (data b)))"
proof -
  have e: "opt_mul_out c a b out = mul_general c a b out"
    using assms by (rule opt_mul_out_same_shape)
  show ?thesis
    unfolding e
    using mul_general_same_shape_elementwise [OF assms(1), of c out]
    by blast
qed

theorem opt_mul_out_same_shape_general_witness:
  "opt_mul_out exact_env ex_m22 ex_n22 ex_out = mul_general exact_env ex_m22 ex_n22 ex_out
   \<and> opt_mul_out exact_env ex_m22 ex_n22 ex_out =
       Inr \<lparr>sizes = [2, 2], scalar_type = IntT, data = [5, 12, 21, 32]\<rparr>
   \<and> select_optimized_path ex_m22 ex_n22 ex_out = kTreatAs1d"
proof -
  have s: "sizes ex_m22 = sizes ex_n22" "scalar_type ex_m22 = scalar_type ex_n22"
    by (simp_all add: ex_m22_def ex_n22_def)
  have p: "promoteTypes exact_env (scalar_type ex_m22) (scalar_type ex_m22) True =
      scalar_type ex_m22 \<and> canCast exact_env (scalar_type ex_m22) (scalar_type ex_m22)"
    by (simp add: exact_env_def promoteTypes_ref_def canCast_ref_def isFloatingType_def
        isIntegralType_def ex_m22_def)
  have k: "select_optimized_path ex_m22 ex_n22 ex_out = kTreatAs1d"
    by (simp add: select_optimized_path_def ex_m22_def ex_n22_def ex_out_def)
  have g: "mul_general exact_env ex_m22 ex_n22 ex_out =
      Inr \<lparr>sizes = [2, 2], scalar_type = IntT, data = [5, 12, 21, 32]\<rparr>"
    unfolding mul_general_eq
    by (simp add: exact_env_def promoteTypes_ref_def canCast_ref_def isFloatingType_def
        isIntegralType_def get_broadcast_target_size_def static_cast_def
        linearize_access_indexes_def ex_m22_def ex_n22_def ex_out_def upt_rec)
  have "opt_mul_out exact_env ex_m22 ex_n22 ex_out =
      mul_general exact_env ex_m22 ex_n22 ex_out"
    using opt_mul_out_same_shape_general [OF s, of ex_out exact_env] p by blast
  then show ?thesis
    using g k by simp
qed



section \<open>The tensor-tensor operator: commutativity\<close>

text \<open>
  C8. With an element multiplication that is commutative in every type and a promotion
  table that is symmetric, two successful calls with the operands in either order give
  the same element values in the same order and the same element count; the output
  shapes may differ (the flat path takes the shape of whichever operand comes first).
  This holds for all shapes, hence for those that broadcast in both orders.
\<close>

theorem opt_mul_out_commutative:
  assumes "\<forall>t x y. multiply c t x y = multiply c t y x"
    and "\<forall>s t. promoteTypes c s t True = promoteTypes c t s True"
    and "opt_mul_out c a b out = Inr r1" and "opt_mul_out c b a out = Inr r2"
  shows "data r1 = data r2 \<and> numel r1 = numel r2"
proof -
  let ?h = "\<lambda>x y. scalar_type x = scalar_type y \<and> scalar_type x = scalar_type out \<and>
      scalar_type x \<noteq> HalfT"
  have hs: "?h b a = ?h a b" by auto
  consider (swap) "numel b \<noteq> 1" "numel a = 1" | (swap') "numel a \<noteq> 1" "numel b = 1"
    | (scalar) "numel a = 1" "numel b = 1" "?h a b"
    | (disp1) "numel a = 1" "numel b = 1" "\<not> ?h a b"
    | (disp) "numel a \<noteq> 1" "numel b \<noteq> 1"
    by blast
  then show ?thesis
  proof cases
    case swap
    then have "opt_mul_out c a b out = opt_mul_out c b a out"
      by (rule opt_mul_out_swap)
    then show ?thesis using assms(3,4) by simp
  next
    case swap'
    then have "opt_mul_out c b a out = opt_mul_out c a b out"
      by (rule opt_mul_out_swap)
    then show ?thesis using assms(3,4) by simp
  next
    case scalar
    have "opt_mul_out c a b out = mul_scalar_tensor_path c a b out"
      using scalar by (intro opt_mul_out_scalar) auto
    moreover have "opt_mul_out c b a out = mul_scalar_tensor_path c b a out"
      using scalar by (intro opt_mul_out_scalar) auto
    ultimately show ?thesis
      using mul_scalar_tensor_path_comm [OF assms(1) scalar(1,2), of out r1 r2]
        scalar(3) assms(3,4) by auto
  next
    case disp1
    have "opt_mul_out c a b out = mul_dispatch c a b out"
      using disp1 by (intro opt_mul_out_no_swap) auto
    moreover have "opt_mul_out c b a out = mul_dispatch c b a out"
      using disp1 by (intro opt_mul_out_no_swap) auto
    ultimately show ?thesis
      using mul_dispatch_comm [OF assms(1,2)] assms(3,4) by simp
  next
    case disp
    have "opt_mul_out c a b out = mul_dispatch c a b out"
      using disp by (intro opt_mul_out_no_swap) simp_all
    moreover have "opt_mul_out c b a out = mul_dispatch c b a out"
      using disp by (intro opt_mul_out_no_swap) simp_all
    ultimately show ?thesis
      using mul_dispatch_comm [OF assms(1,2)] assms(3,4) by simp
  qed
qed


theorem opt_mul_out_commutative_witness:
  "opt_mul_out exact_env ex_v116 ex_v6 ex_out =
     Inr \<lparr>sizes = [1, 1, 6], scalar_type = IntT, data = [6, 10, 12, 12, 10, 6]\<rparr>
   \<and> opt_mul_out exact_env ex_v6 ex_v116 ex_out =
     Inr \<lparr>sizes = [6], scalar_type = IntT, data = [6, 10, 12, 12, 10, 6]\<rparr>
   \<and> data \<lparr>sizes = [1, 1, 6], scalar_type = IntT, data = [6, 10, 12, 12, 10, 6 :: int]\<rparr> =
     data \<lparr>sizes = [6], scalar_type = IntT, data = [6, 10, 12, 12, 10, 6 :: int]\<rparr>
   \<and> numel \<lparr>sizes = [1, 1, 6], scalar_type = IntT, data = [6, 10, 12, 12, 10, 6 :: int]\<rparr> =
     numel \<lparr>sizes = [6], scalar_type = IntT, data = [6, 10, 12, 12, 10, 6 :: int]\<rparr>"
proof -
  have m: "\<forall>t x y. multiply exact_env t x y = multiply exact_env t y x"
    by (simp add: exact_env_def mult.commute)
  have p: "\<forall>s t. promoteTypes exact_env s t True = promoteTypes exact_env t s True"
    by (simp add: exact_env_def promoteTypes_ref_sym [of _ _ True])
  have n: "numel ex_v116 \<noteq> 1" "numel ex_v6 \<noteq> 1"
    by (simp_all add: numel_def ex_v116_def ex_v6_def)
  have k: "select_optimized_path ex_v116 ex_v6 ex_out = kTreatAs1d"
    "select_optimized_path ex_v6 ex_v116 ex_out = kTreatAs1d"
    by (simp_all add: select_optimized_path_def sizes_match_ignoring_leading_1s_def
        std_equal_def numel_def ex_v116_def ex_v6_def ex_out_def)
  have "opt_mul_out exact_env ex_v116 ex_v6 ex_out =
      mul_dispatch exact_env ex_v116 ex_v6 ex_out"
    using n by (intro opt_mul_out_no_swap) simp_all
  also have "\<dots> = mul_treat_as_1d exact_env ex_v116 ex_v6 ex_out"
    by (simp add: mul_dispatch_def k)
  also have "\<dots> = Inr \<lparr>sizes = [1, 1, 6], scalar_type = IntT,
      data = [6, 10, 12, 12, 10, 6]\<rparr>"
    by (simp add: mul_treat_as_1d_def resize_tensor_def ET_SWITCH_def
        REALB_TYPES_def vec_map2_def numel_def exact_env_def ex_v116_def ex_v6_def
        ex_out_def upt_rec)
  finally have 1: "opt_mul_out exact_env ex_v116 ex_v6 ex_out =
      Inr \<lparr>sizes = [1, 1, 6], scalar_type = IntT, data = [6, 10, 12, 12, 10, 6]\<rparr>" .
  have "opt_mul_out exact_env ex_v6 ex_v116 ex_out =
      mul_dispatch exact_env ex_v6 ex_v116 ex_out"
    using n by (intro opt_mul_out_no_swap) simp_all
  also have "\<dots> = mul_treat_as_1d exact_env ex_v6 ex_v116 ex_out"
    by (simp add: mul_dispatch_def k)
  also have "\<dots> = Inr \<lparr>sizes = [6], scalar_type = IntT,
      data = [6, 10, 12, 12, 10, 6]\<rparr>"
    by (simp add: mul_treat_as_1d_def resize_tensor_def ET_SWITCH_def
        REALB_TYPES_def vec_map2_def numel_def exact_env_def ex_v116_def ex_v6_def
        ex_out_def upt_rec)
  finally have 2: "opt_mul_out exact_env ex_v6 ex_v116 ex_out =
      Inr \<lparr>sizes = [6], scalar_type = IntT, data = [6, 10, 12, 12, 10, 6]\<rparr>" .
  from opt_mul_out_commutative [OF m p 1 2] 1 2 show ?thesis
    by blast
qed

section \<open>The tensor-scalar operator: failures\<close>

text \<open>
  C9. In the scalar-operand operator, an output type other than the promoted common type
  and a refused resize both end in the fatal assertion: the call aborts, and no call of
  this operator ever reports InvalidArgument. The spec asks for InvalidArgument, which
  is what the tensor-tensor operator reports for the same refused resize.
\<close>

theorem opt_mul_scalar_out_failures_abort:
  "(promote_type_with_scalar c (scalar_type a) b False \<noteq> scalar_type out \<longrightarrow>
      opt_mul_scalar_out c a b out = Inl Abort)
   \<and> (\<not> resize_ok c out (sizes a) \<longrightarrow> opt_mul_scalar_out c a b out = Inl Abort)
   \<and> opt_mul_scalar_out c a b out \<noteq> Inl InvalidArgument"
proof (intro conjI impI)
  assume "promote_type_with_scalar c (scalar_type a) b False \<noteq> scalar_type out"
  then show "opt_mul_scalar_out c a b out = Inl Abort"
    by (simp add: opt_mul_scalar_out_def)
next
  assume "\<not> resize_ok c out (sizes a)"
  then show "opt_mul_scalar_out c a b out = Inl Abort"
    by (simp add: opt_mul_scalar_out_def Let_def resize_tensor_def)
next
  show "opt_mul_scalar_out c a b out \<noteq> Inl InvalidArgument"
    unfolding opt_mul_scalar_out_def Let_def
    by (auto split: option.splits intro!: ET_SWITCH_not_InvalidArgument)
qed

theorem opt_mul_scalar_out_failures_abort_witness:
  "opt_mul_scalar_out exact_env ex_m22 (IntScalar 3) ex_fout = Inl Abort
   \<and> opt_mul_scalar_out static_env ex_m22 (IntScalar 3) ex_out = Inl Abort"
proof -
  have 1: "promote_type_with_scalar exact_env (scalar_type ex_m22) (IntScalar 3) False \<noteq>
      scalar_type ex_fout"
    by (simp add: exact_env_def promote_type_with_scalar_ref_def isFloatingType_def
        isIntegralType_def ex_m22_def ex_fout_def)
  have 2: "\<not> resize_ok static_env ex_out (sizes ex_m22)"
    by (simp add: static_env_def ex_out_def ex_m22_def)
  show ?thesis
    using opt_mul_scalar_out_failures_abort [of exact_env ex_m22 "IntScalar 3" ex_fout] 1
      opt_mul_scalar_out_failures_abort [of static_env ex_m22 "IntScalar 3" ex_out] 2
    by blast
qed

section \<open>What a call writes\<close>

text \<open>
  Every store of a loop goes through the output's data pointer to an offset below the
  output's element count, on every path of both operators: by induction over the steps
  of the loop, and for the row broadcast because the selector admits only a left
  operand whose element count is the row count times the row length.
\<close>

lemma seq_store_frame:
  "\<forall>step \<in> set steps. fst step < n \<Longrightarrow> x \<notin> {dst ..< dst + n} \<Longrightarrow>
   seq_store dst steps m x = m x"
proof (induction steps arbitrary: m)
  case Nil
  then show ?case by simp
next
  case (Cons step steps)
  obtain k rd where step: "step = (k, rd)" by (cases step)
  have k: "k < n" using Cons.prems(1) step by simp
  have "seq_store dst steps (m(dst + k := rd m)) x = (m(dst + k := rd m)) x"
    using Cons.prems by (intro Cons.IH) simp_all
  also have "\<dots> = m x" using k Cons.prems(2) by auto
  finally show ?case by (simp add: step)
qed

lemma only_output_modified_refl: "only_output_modified s s out"
  by (simp add: only_output_modified_def)

lemma only_output_modified_resize:
  "resize_tensor_mem c place s out new_sizes = Some s1 \<Longrightarrow> only_output_modified s s1 out"
  by (auto simp: resize_tensor_mem_def only_output_modified_def split: if_splits)

lemma resize_tensor_mem_Some:
  assumes "resize_tensor_mem c place s out new_sizes = Some s1"
  shows "numel_at s1 out = prod_list new_sizes"
    and "impl_sizes (tensors s1 out) = new_sizes"
    and "impl_data (tensors s1 out) = place s out new_sizes"
    and "impl_type (tensors s1 p) = impl_type (tensors s p)"
    and "cells s1 = cells s"
    and "p \<noteq> out \<Longrightarrow> tensors s1 p = tensors s p"
  using assms by (auto simp: resize_tensor_mem_def numel_at_def split: if_splits)

lemma only_output_modified_store:
  assumes "only_output_modified s s1 out"
    and "\<forall>step \<in> set steps. fst step < numel_at s1 out"
  shows "only_output_modified s
           (s1\<lparr>cells := seq_store (impl_data (tensors s1 out)) steps (cells s1)\<rparr>) out"
proof -
  have "seq_store (impl_data (tensors s1 out)) steps (cells s1) x = cells s x"
    if "x \<notin> {impl_data (tensors s1 out) ..< impl_data (tensors s1 out) + numel_at s1 out}"
    for x
  proof -
    have "seq_store (impl_data (tensors s1 out)) steps (cells s1) x = cells s1 x"
      using assms(2) that by (rule seq_store_frame)
    also have "\<dots> = cells s x"
      using assms(1) that by (simp add: only_output_modified_def)
    finally show ?thesis .
  qed
  then show ?thesis
    using assms(1) by (simp add: only_output_modified_def numel_at_def)
qed

lemma ET_SWITCH_mem_frame:
  "only_output_modified s s1 out \<Longrightarrow> only_output_modified s (snd body) out \<Longrightarrow>
   only_output_modified s (snd (ET_SWITCH_mem family t s1 body)) out"
  by (simp add: ET_SWITCH_mem_def)

lemma mul_scalar_tensor_path_mem_frame:
  "only_output_modified s (snd (mul_scalar_tensor_path_mem c place s a b out)) out"
proof (cases "resize_tensor_mem c place s out (impl_sizes (tensors s a))")
  case None
  then show ?thesis
    by (simp add: mul_scalar_tensor_path_mem_def only_output_modified_refl)
next
  case (Some s1)
  note r = only_output_modified_resize [OF Some]
  show ?thesis
    unfolding mul_scalar_tensor_path_mem_def Let_def Some option.case vec_map_mem_def
    by (intro ET_SWITCH_mem_frame r) (simp, rule only_output_modified_store [OF r], simp)
qed

lemma mul_treat_as_1d_mem_frame:
  "only_output_modified s (snd (mul_treat_as_1d_mem c place s a b out)) out"
proof (cases "resize_tensor_mem c place s out (impl_sizes (tensors s a))")
  case None
  then show ?thesis
    by (simp add: mul_treat_as_1d_mem_def only_output_modified_refl)
next
  case (Some s1)
  note r = only_output_modified_resize [OF Some]
  show ?thesis
    unfolding mul_treat_as_1d_mem_def Let_def Some option.case vec_map2_mem_def
    by (intro ET_SWITCH_mem_frame r) (simp, rule only_output_modified_store [OF r], simp)
qed

lemma mul_general_mem_frame:
  "only_output_modified s (snd (mul_general_mem c place s a b out)) out"
proof (cases "canCast c (promoteTypes c (impl_type (tensors s a)) (impl_type (tensors s b)) True)
    (impl_type (tensors s out))")
  case False
  then show ?thesis
    by (simp add: mul_general_mem_def only_output_modified_refl)
next
  case True
  show ?thesis
  proof (cases "resize_to_broadcast_target_size_mem c place s a b out")
    case None
    then show ?thesis
      by (simp add: mul_general_mem_def Let_def only_output_modified_refl)
  next
    case (Some s1)
    then obtain target where "resize_tensor_mem c place s out target = Some s1"
      by (auto simp: resize_to_broadcast_target_size_mem_def split: option.splits)
    note r = only_output_modified_resize [OF this]
    show ?thesis
      unfolding mul_general_mem_def Let_def Some option.case
        apply_binary_elementwise_fn_mem_def
      using True
      by (simp, intro ET_SWITCH_mem_frame r) (simp, rule only_output_modified_store [OF r], simp)
  qed
qed

lemma prod_list_matrix:
  assumes "length (strip_leading_1s xs) = 2"
  shows "prod_list xs = xs ! (length xs - 2) * xs ! (length xs - 1)"
proof -
  have "prod_list xs = prod_list (strip_leading_1s xs)"
    by (simp add: prod_list_strip)
  also have "\<dots> = prod_list [xs ! (length xs - 2), xs ! (length xs - 1)]"
    using strip_two [OF assms] by simp
  finally show ?thesis by simp
qed

lemma row_offsets_less:
  "\<forall>step \<in> set (concat (map (\<lambda>r. map (\<lambda>j. (r * C + j, g r j)) [0..<C]) [0..<R])).
     fst step < R * C"
proof -
  have "r * C + j < R * C" if "r < R" "j < C" for r j
    using digit_less [OF that] by (simp add: mult.commute add.commute)
  then show ?thesis by auto
qed

lemma sizes_tensor_of [simp]: "sizes (tensor_of s p) = impl_sizes (tensors s p)"
  by (simp add: tensor_of_def)

lemma scalar_type_tensor_of [simp]: "scalar_type (tensor_of s p) = impl_type (tensors s p)"
  by (simp add: tensor_of_def)

lemma numel_tensor_of [simp]: "numel (tensor_of s p) = numel_at s p"
  by (simp add: numel_def numel_at_def)

lemma mul_broadcast_2d_by_1d_mem_frame:
  assumes "lhs = (if p = kBroadcast2dBy1dReverseArguments then b else a)"
    and "length (strip_leading_1s (impl_sizes (tensors s lhs))) = 2"
  shows "only_output_modified s (snd (mul_broadcast_2d_by_1d_mem c place p s a b out)) out"
proof (cases "resize_tensor_mem c place s out (impl_sizes (tensors s lhs))")
  case None
  then show ?thesis
    unfolding mul_broadcast_2d_by_1d_mem_def Let_def assms(1) [symmetric]
    by (simp add: only_output_modified_refl)
next
  case (Some s1)
  note r = only_output_modified_resize [OF Some]
  have l: "impl_sizes (tensors s1 lhs) = impl_sizes (tensors s lhs)"
    using resize_tensor_mem_Some(2) [OF Some] resize_tensor_mem_Some(6) [OF Some, of lhs]
    by (cases "lhs = out") simp_all
  have n: "numel_at s1 out =
      impl_sizes (tensors s lhs) ! (length (impl_sizes (tensors s lhs)) - 2) *
      impl_sizes (tensors s lhs) ! (length (impl_sizes (tensors s lhs)) - 1)"
    using resize_tensor_mem_Some(1) [OF Some] prod_list_matrix [OF assms(2)] by simp
  show ?thesis
    unfolding mul_broadcast_2d_by_1d_mem_def Let_def assms(1) [symmetric] Some option.case
      broadcasting_map_2d_by_1d_mem_def l
    by (intro ET_SWITCH_mem_frame r)
      (simp only: snd_conv, rule only_output_modified_store [OF r], unfold n,
        rule row_offsets_less)
qed

lemma mul_dispatch_mem_frame:
  "only_output_modified s (snd (mul_dispatch_mem c place s a b out)) out"
proof (cases "select_optimized_path (tensor_of s a) (tensor_of s b) (tensor_of s out)")
  case kNone
  then show ?thesis
    by (simp add: mul_dispatch_mem_def mul_general_mem_frame)
next
  case kTreatAs1d
  then show ?thesis
    by (simp add: mul_dispatch_mem_def mul_treat_as_1d_mem_frame)
next
  case kBroadcast2dBy1d
  have "length (strip_leading_1s (impl_sizes (tensors s a))) = 2"
    using select_broadcast_shapes(4) [OF kBroadcast2dBy1d] by simp
  then have "only_output_modified s
      (snd (mul_broadcast_2d_by_1d_mem c place kBroadcast2dBy1d s a b out)) out"
    by (intro mul_broadcast_2d_by_1d_mem_frame [where lhs = a]) simp_all
  then show ?thesis
    by (simp add: mul_dispatch_mem_def kBroadcast2dBy1d)
next
  case kBroadcast2dBy1dReverseArguments
  have "length (strip_leading_1s (impl_sizes (tensors s b))) = 2"
    using select_broadcast_reverse_shapes(4) [OF kBroadcast2dBy1dReverseArguments] by simp
  then have "only_output_modified s
      (snd (mul_broadcast_2d_by_1d_mem c place kBroadcast2dBy1dReverseArguments s a b out)) out"
    by (intro mul_broadcast_2d_by_1d_mem_frame [where lhs = b]) simp_all
  then show ?thesis
    by (simp add: mul_dispatch_mem_def kBroadcast2dBy1dReverseArguments)
qed

declare opt_mul_out_mem.simps [simp del]

lemma opt_mul_out_mem_no_swap:
  "numel_at s b = 1 \<or> numel_at s a \<noteq> 1 \<Longrightarrow>
   opt_mul_out_mem c place s a b out =
     (if numel_at s b = 1 \<and> impl_type (tensors s a) = impl_type (tensors s b) \<and>
         impl_type (tensors s a) = impl_type (tensors s out) \<and>
         impl_type (tensors s a) \<noteq> HalfT
      then mul_scalar_tensor_path_mem c place s a b out
      else mul_dispatch_mem c place s a b out)"
  by (subst opt_mul_out_mem.simps) auto

lemma opt_mul_out_mem_swap:
  "numel_at s b \<noteq> 1 \<Longrightarrow> numel_at s a = 1 \<Longrightarrow>
   opt_mul_out_mem c place s a b out = opt_mul_out_mem c place s b a out"
  by (subst opt_mul_out_mem.simps) simp

lemma opt_mul_out_mem_frame:
  "only_output_modified s (snd (opt_mul_out_mem c place s a b out)) out"
proof (cases "numel_at s b = 1 \<or> numel_at s a \<noteq> 1")
  case True
  show ?thesis
    unfolding opt_mul_out_mem_no_swap [OF True]
    by (simp add: mul_scalar_tensor_path_mem_frame mul_dispatch_mem_frame)
next
  case False
  then have s: "opt_mul_out_mem c place s a b out = opt_mul_out_mem c place s b a out"
    by (intro opt_mul_out_mem_swap) simp_all
  have n: "numel_at s a = 1 \<or> numel_at s b \<noteq> 1" using False by simp
  show ?thesis
    unfolding s opt_mul_out_mem_no_swap [OF n]
    by (simp add: mul_scalar_tensor_path_mem_frame mul_dispatch_mem_frame)
qed

lemma opt_mul_scalar_out_mem_frame:
  "only_output_modified s (snd (opt_mul_scalar_out_mem c place s a b out)) out"
proof (cases "resize_tensor_mem c place s out (impl_sizes (tensors s a))")
  case None
  then show ?thesis
    by (simp add: opt_mul_scalar_out_mem_def Let_def only_output_modified_refl)
next
  case (Some s1)
  note r = only_output_modified_resize [OF Some]
  have l: "impl_sizes (tensors s1 a) = impl_sizes (tensors s a)"
    using resize_tensor_mem_Some(2) [OF Some] resize_tensor_mem_Some(6) [OF Some, of a]
    by (cases "a = out") simp_all
  have n: "numel_at s1 a = numel_at s1 out"
    using resize_tensor_mem_Some(1) [OF Some] l by (simp add: numel_at_def)
  show ?thesis
    unfolding opt_mul_scalar_out_mem_def Let_def Some option.case vec_map_mem_def n
    by (auto simp: only_output_modified_refl
        intro!: ET_SWITCH_mem_frame r only_output_modified_store [OF r])
qed

lemma unchanged_tensor:
  assumes "only_output_modified s s' out" and "p \<noteq> out"
    and "{impl_data (tensors s p) ..< impl_data (tensors s p) + numel_at s p} \<inter>
         {impl_data (tensors s' out) ..< impl_data (tensors s' out) + numel_at s' out} = {}"
  shows "tensor_of s' p = tensor_of s p"
proof -
  have t: "tensors s' p = tensors s p"
    using assms(1,2) by (simp add: only_output_modified_def)
  have "cells s' (impl_data (tensors s p) + i) = cells s (impl_data (tensors s p) + i)"
    if "i < numel_at s p" for i
  proof -
    have "impl_data (tensors s p) + i \<in>
        {impl_data (tensors s p) ..< impl_data (tensors s p) + numel_at s p}"
      using that by simp
    then have "impl_data (tensors s p) + i \<notin>
        {impl_data (tensors s' out) ..< impl_data (tensors s' out) + numel_at s' out}"
      using assms(3) by blast
    then show ?thesis
      using assms(1) by (simp add: only_output_modified_def)
  qed
  then show ?thesis
    by (simp add: tensor_of_def t numel_at_def)
qed

section \<open>The operators on memory and the operators on values\<close>

text \<open>
  When the operands are objects other than the output object and their buffers do not
  overlap the output's buffer, no load of a loop sees a store of the loop, and the
  operators on memory have the outcome of the operators on values, applied to the
  tensors the three objects denote at entry.
\<close>

lemma seq_store_other:
  "x \<notin> (\<lambda>step. dst + fst step) ` set steps \<Longrightarrow> seq_store dst steps m x = m x"
proof (induction steps arbitrary: m)
  case Nil
  then show ?case by simp
next
  case (Cons step steps)
  obtain k rd where step: "step = (k, rd)" by (cases step)
  have "seq_store dst steps (m(dst + k := rd m)) x = (m(dst + k := rd m)) x"
    using Cons.prems by (intro Cons.IH) simp
  also have "\<dots> = m x" using Cons.prems step by auto
  finally show ?case by (simp add: step)
qed

lemma seq_store_indep:
  assumes "distinct (map fst steps)"
    and "\<forall>step \<in> set steps. fst step < n"
    and "\<forall>step \<in> set steps. \<forall>m'.
           (\<forall>x. x \<notin> {dst ..< dst + n} \<longrightarrow> m' x = m x) \<longrightarrow> snd step m' = snd step m"
    and "step \<in> set steps"
  shows "seq_store dst steps m (dst + fst step) = snd step m"
  using assms
proof (induction steps arbitrary: m)
  case Nil
  then show ?case by simp
next
  case (Cons st rest)
  obtain k rd where st: "st = (k, rd)" by (cases st)
  let ?m1 = "m(dst + k := rd m)"
  have k: "k < n" using Cons.prems(2) st by simp
  have agree: "\<forall>x. x \<notin> {dst ..< dst + n} \<longrightarrow> ?m1 x = m x"
    using k by auto
  have p3: "snd step' m' = snd step' m"
    if "step' \<in> set rest" "\<forall>x. x \<notin> {dst ..< dst + n} \<longrightarrow> m' x = m x" for step' m'
    using Cons.prems(3) [rule_format, of step' m'] that by simp
  show ?case
  proof (cases "step = st")
    case True
    have "k \<notin> fst ` set rest" using Cons.prems(1) st by simp
    then have "dst + k \<notin> (\<lambda>step. dst + fst step) ` set rest" by force
    then have "seq_store dst rest ?m1 (dst + k) = ?m1 (dst + k)"
      by (rule seq_store_other)
    then show ?thesis using True st by simp
  next
    case False
    then have in_rest: "step \<in> set rest" using Cons.prems(4) by simp
    have ind: "\<forall>step \<in> set rest. \<forall>m'.
           (\<forall>x. x \<notin> {dst ..< dst + n} \<longrightarrow> m' x = ?m1 x) \<longrightarrow> snd step m' = snd step ?m1"
    proof (intro ballI allI impI)
      fix step' m'
      assume s': "step' \<in> set rest"
        and a: "\<forall>x. x \<notin> {dst ..< dst + n} \<longrightarrow> m' x = ?m1 x"
      have "\<forall>x. x \<notin> {dst ..< dst + n} \<longrightarrow> m' x = m x"
        using a agree by simp
      then have 1: "snd step' m' = snd step' m"
        using s' by (intro p3)
      have 2: "snd step' ?m1 = snd step' m"
        using s' agree by (intro p3)
      show "snd step' m' = snd step' ?m1" using 1 2 by simp
    qed
    have "seq_store dst rest ?m1 (dst + fst step) = snd step ?m1"
    proof (rule Cons.IH [OF _ _ ind in_rest])
      show "distinct (map fst rest)" using Cons.prems(1) by simp
      show "\<forall>step \<in> set rest. fst step < n" using Cons.prems(2) by simp
    qed
    also have "\<dots> = snd step m"
      using in_rest agree by (intro p3)
    finally show ?thesis by (simp add: st)
  qed
qed

lemma store_loop_values:
  assumes "\<forall>i<n. \<forall>m'. (\<forall>x. x \<notin> {dst ..< dst + n} \<longrightarrow> m' x = m x) \<longrightarrow> rd i m' = rd i m"
    and "i < n"
  shows "seq_store dst (map (\<lambda>i. (i, rd i)) [0..<n]) m (dst + i) = rd i m"
proof -
  have "seq_store dst (map (\<lambda>i. (i, rd i)) [0..<n]) m (dst + fst (i, rd i)) =
        snd (i, rd i) m"
  proof (rule seq_store_indep [where n = n])
    show "distinct (map fst (map (\<lambda>i. (i, rd i)) [0..<n]))"
      by (simp add: comp_def)
    show "\<forall>step \<in> set (map (\<lambda>i. (i, rd i)) [0..<n]). fst step < n"
      by simp
    show "\<forall>step \<in> set (map (\<lambda>i. (i, rd i)) [0..<n]). \<forall>m'.
           (\<forall>x. x \<notin> {dst ..< dst + n} \<longrightarrow> m' x = m x) \<longrightarrow> snd step m' = snd step m"
    proof (intro ballI allI impI)
      fix step m'
      assume "step \<in> set (map (\<lambda>i. (i, rd i)) [0..<n])"
        and a: "\<forall>x. x \<notin> {dst ..< dst + n} \<longrightarrow> m' x = m x"
      then obtain j where j: "j < n" "step = (j, rd j)" by auto
      show "snd step m' = snd step m"
        using assms(1) [rule_format, OF j(1) a [rule_format]] j(2) by simp
    qed
    show "(i, rd i) \<in> set (map (\<lambda>i. (i, rd i)) [0..<n])"
      using assms(2) by simp
  qed
  then show ?thesis by simp
qed

lemma concat_rows:
  "concat (map (\<lambda>r. map (\<lambda>j. g (r * C + j) j) [0..<C]) [0..<R]) =
   map (\<lambda>i. g i (i mod C)) [0..<R * C]"
proof (induction R)
  case 0
  then show ?case by simp
next
  case (Suc R)
  have u: "[0..<R * C + C] = [0..<R * C] @ [R * C..<R * C + C]"
    by (rule upt_add_eq_append) simp
  have v: "[R * C..<R * C + C] = map (\<lambda>j. j + R * C) [0..<C]"
    by (simp only: map_add_upt add.commute [of C])
  have w: "map (\<lambda>i. g i (i mod C)) (map (\<lambda>j. j + R * C) [0..<C]) =
        map (\<lambda>j. g (R * C + j) j) [0..<C]"
    unfolding map_map comp_def by (rule map_cong) (simp_all add: add.commute)
  have "concat (map (\<lambda>r. map (\<lambda>j. g (r * C + j) j) [0..<C]) [0..<Suc R]) =
        concat (map (\<lambda>r. map (\<lambda>j. g (r * C + j) j) [0..<C]) [0..<R]) @
        map (\<lambda>j. g (R * C + j) j) [0..<C]"
    by simp
  also have "\<dots> = map (\<lambda>i. g i (i mod C)) [0..<R * C] @
        map (\<lambda>i. g i (i mod C)) (map (\<lambda>j. j + R * C) [0..<C])"
    unfolding Suc.IH w ..
  also have "\<dots> = map (\<lambda>i. g i (i mod C)) [0..<R * C + C]"
    unfolding u v map_append ..
  also have "R * C + C = Suc R * C" by simp
  finally show ?case .
qed

lemma ET_SWITCH_mem_REALB: "t \<noteq> HalfT \<Longrightarrow> ET_SWITCH_mem REALB_TYPES t s body = body"
  by (cases t) (simp_all add: ET_SWITCH_mem_def REALB_TYPES_def)

lemma ET_SWITCH_mem_REALHB: "ET_SWITCH_mem REALHB_TYPES t s body = body"
  by (cases t) (simp_all add: ET_SWITCH_mem_def REALHB_TYPES_def)

lemma ET_SWITCH_mem_SCALAR_OBJ:
  "ET_SWITCH_mem SCALAR_OBJ_TYPES (get_scalar_dtype b) s body = body"
  by (cases b) (simp_all add: ET_SWITCH_mem_def SCALAR_OBJ_TYPES_def)

lemma data_tensor_of_nth:
  "i < numel_at s p \<Longrightarrow> data (tensor_of s p) ! i = cells s (impl_data (tensors s p) + i)"
  by (simp add: tensor_of_def)

lemma separate_read:
  assumes "{impl_data (tensors s p) ..< impl_data (tensors s p) + numel_at s p} \<inter> W = {}"
    and "\<forall>x. x \<notin> W \<longrightarrow> m' x = cells s x" and "i < numel_at s p"
  shows "m' (impl_data (tensors s p) + i) = cells s (impl_data (tensors s p) + i)"
proof -
  have "impl_data (tensors s p) + i \<in>
      {impl_data (tensors s p) ..< impl_data (tensors s p) + numel_at s p}"
    using assms(3) by simp
  then have "impl_data (tensors s p) + i \<notin> W" using assms(1) by blast
  then show ?thesis using assms(2) by simp
qed

lemma store_result_tensor:
  assumes "resize_tensor_mem c place s out new = Some s1"
    and "\<forall>i<prod_list new. rd i (cells s) = val i"
    and "\<forall>i<prod_list new. \<forall>m'.
           (\<forall>x. x \<notin> {impl_data (tensors s1 out) ..<
                         impl_data (tensors s1 out) + prod_list new} \<longrightarrow> m' x = cells s x)
           \<longrightarrow> rd i m' = rd i (cells s)"
  shows "tensor_of
           (s1\<lparr>cells := seq_store (impl_data (tensors s1 out))
                           (map (\<lambda>i. (i, rd i)) [0..<numel_at s1 out]) (cells s1)\<rparr>) out =
         (tensor_of s out)\<lparr>sizes := new, data := map val [0..<prod_list new]\<rparr>"
proof -
  note r = resize_tensor_mem_Some [OF assms(1)]
  have v: "seq_store (impl_data (tensors s1 out)) (map (\<lambda>i. (i, rd i)) [0..<prod_list new])
             (cells s) (impl_data (tensors s1 out) + i) = val i" if "i < prod_list new" for i
    using store_loop_values [OF assms(3) that] assms(2) that by simp
  have "map (\<lambda>i. seq_store (impl_data (tensors s1 out))
                    (map (\<lambda>i. (i, rd i)) [0..<prod_list new]) (cells s)
                    (impl_data (tensors s1 out) + i)) [0..<prod_list new] =
        map val [0..<prod_list new]"
    by (rule map_cong) (simp_all add: v)
  then show ?thesis
    by (simp add: tensor_of_def numel_at_def r(2) r(4) r(5))
qed

lemma resize_tensor_mem_None:
  "\<not> resize_ok c (tensor_of s out) new \<Longrightarrow> resize_tensor_mem c place s out new = None"
  by (simp add: resize_tensor_mem_def)

lemma resize_tensor_mem_ok:
  "resize_ok c (tensor_of s out) new \<Longrightarrow> \<exists>s1. resize_tensor_mem c place s out new = Some s1"
  by (simp add: resize_tensor_mem_def)

lemma mul_scalar_tensor_path_mem_separate:
  assumes "impl_type (tensors s a) = impl_type (tensors s b)"
    and "impl_type (tensors s a) \<noteq> HalfT"
    and "numel_at s b = 1" and "a \<noteq> out" and "b \<noteq> out"
    and "{impl_data (tensors s a) ..< impl_data (tensors s a) + numel_at s a} \<inter>
         {impl_data (tensors (snd (mul_scalar_tensor_path_mem c place s a b out)) out) ..<
            impl_data (tensors (snd (mul_scalar_tensor_path_mem c place s a b out)) out) +
            numel_at (snd (mul_scalar_tensor_path_mem c place s a b out)) out} = {}"
  shows "same_outcome (mul_scalar_tensor_path_mem c place s a b out) out
           (mul_scalar_tensor_path c (tensor_of s a) (tensor_of s b) (tensor_of s out))"
proof (cases "resize_ok c (tensor_of s out) (impl_sizes (tensors s a))")
  case False
  then show ?thesis
    using assms(1,2)
    by (simp add: mul_scalar_tensor_path_eq mul_scalar_tensor_path_mem_def
        resize_tensor_mem_None same_outcome_def)
next
  case True
  then obtain s1 where s1: "resize_tensor_mem c place s out (impl_sizes (tensors s a)) = Some s1"
    using resize_tensor_mem_ok by blast
  note r = resize_tensor_mem_Some [OF s1]
  let ?W = "{impl_data (tensors s1 out) ..<
      impl_data (tensors s1 out) + prod_list (impl_sizes (tensors s a))}"
  let ?rd = "\<lambda>i m. multiply c (impl_type (tensors s a))
      (m (impl_data (tensors s a) + i)) (cells s (impl_data (tensors s b)))"
  let ?val = "\<lambda>i. multiply c (impl_type (tensors s a))
      (data (tensor_of s a) ! i) (data (tensor_of s b) ! 0)"
  have b0: "data (tensor_of s b) ! 0 = cells s (impl_data (tensors s b))"
    using data_tensor_of_nth [of 0 s b] assms(3) by simp
  have vals: "\<forall>i<prod_list (impl_sizes (tensors s a)). ?rd i (cells s) = ?val i"
    by (simp add: b0 data_tensor_of_nth numel_at_def)
  have m: "mul_scalar_tensor_path_mem c place s a b out =
      (None, s1\<lparr>cells := seq_store (impl_data (tensors s1 out))
                  (map (\<lambda>i. (i, ?rd i)) [0..<numel_at s1 out]) (cells s1)\<rparr>)"
    using assms(1,2,4,5)
    by (simp add: mul_scalar_tensor_path_mem_def s1 ET_SWITCH_mem_REALB vec_map_mem_def
        static_cast_def r(5) r(6))
  have pa: "impl_data (tensors (snd (mul_scalar_tensor_path_mem c place s a b out)) out) =
      impl_data (tensors s1 out)"
    unfolding m by simp
  have na: "numel_at (snd (mul_scalar_tensor_path_mem c place s a b out)) out =
      prod_list (impl_sizes (tensors s a))"
    unfolding m using r(1) by (simp add: numel_at_def)
  note sepa = assms(6) [unfolded na pa]
  have indep: "\<forall>i<prod_list (impl_sizes (tensors s a)). \<forall>m'.
      (\<forall>x. x \<notin> ?W \<longrightarrow> m' x = cells s x) \<longrightarrow> ?rd i m' = ?rd i (cells s)"
  proof (intro allI impI)
    fix i m'
    assume "i < prod_list (impl_sizes (tensors s a))" and "\<forall>x. x \<notin> ?W \<longrightarrow> m' x = cells s x"
    then have "m' (impl_data (tensors s a) + i) = cells s (impl_data (tensors s a) + i)"
      using separate_read [OF sepa] by (simp add: numel_at_def)
    then show "?rd i m' = ?rd i (cells s)" by simp
  qed
  have p: "mul_scalar_tensor_path c (tensor_of s a) (tensor_of s b) (tensor_of s out) =
      Inr ((tensor_of s out)\<lparr>sizes := impl_sizes (tensors s a),
             data := map ?val [0..<prod_list (impl_sizes (tensors s a))]\<rparr>)"
    using assms(1,2) True
    by (simp add: mul_scalar_tensor_path_eq numel_at_def)
  show ?thesis
    unfolding m p same_outcome_def
    using store_result_tensor [OF s1 vals indep] by simp
qed

lemma mul_treat_as_1d_mem_separate:
  assumes "impl_type (tensors s out) \<noteq> HalfT"
    and "numel_at s a = numel_at s b" and "a \<noteq> out" and "b \<noteq> out"
    and "{impl_data (tensors s a) ..< impl_data (tensors s a) + numel_at s a} \<inter>
         {impl_data (tensors (snd (mul_treat_as_1d_mem c place s a b out)) out) ..<
            impl_data (tensors (snd (mul_treat_as_1d_mem c place s a b out)) out) +
            numel_at (snd (mul_treat_as_1d_mem c place s a b out)) out} = {}"
    and "{impl_data (tensors s b) ..< impl_data (tensors s b) + numel_at s b} \<inter>
         {impl_data (tensors (snd (mul_treat_as_1d_mem c place s a b out)) out) ..<
            impl_data (tensors (snd (mul_treat_as_1d_mem c place s a b out)) out) +
            numel_at (snd (mul_treat_as_1d_mem c place s a b out)) out} = {}"
  shows "same_outcome (mul_treat_as_1d_mem c place s a b out) out
           (mul_treat_as_1d c (tensor_of s a) (tensor_of s b) (tensor_of s out))"
proof (cases "resize_ok c (tensor_of s out) (impl_sizes (tensors s a))")
  case False
  then show ?thesis
    using assms(1)
    by (simp add: mul_treat_as_1d_eq mul_treat_as_1d_mem_def
        resize_tensor_mem_None same_outcome_def)
next
  case True
  then obtain s1 where s1: "resize_tensor_mem c place s out (impl_sizes (tensors s a)) = Some s1"
    using resize_tensor_mem_ok by blast
  note r = resize_tensor_mem_Some [OF s1]
  let ?W = "{impl_data (tensors s1 out) ..<
      impl_data (tensors s1 out) + prod_list (impl_sizes (tensors s a))}"
  let ?rd = "\<lambda>i m. multiply c (impl_type (tensors s out))
      (m (impl_data (tensors s a) + i)) (m (impl_data (tensors s b) + i))"
  let ?val = "\<lambda>i. multiply c (impl_type (tensors s out))
      (data (tensor_of s a) ! i) (data (tensor_of s b) ! i)"
  have nb: "numel_at s b = prod_list (impl_sizes (tensors s a))"
    using assms(2) by (simp add: numel_at_def)
  have vals: "\<forall>i<prod_list (impl_sizes (tensors s a)). ?rd i (cells s) = ?val i"
    using nb by (simp add: data_tensor_of_nth numel_at_def)
  have m: "mul_treat_as_1d_mem c place s a b out =
      (None, s1\<lparr>cells := seq_store (impl_data (tensors s1 out))
                  (map (\<lambda>i. (i, ?rd i)) [0..<numel_at s1 out]) (cells s1)\<rparr>)"
    using assms(1,3,4)
    by (simp add: mul_treat_as_1d_mem_def s1 ET_SWITCH_mem_REALB vec_map2_mem_def r(6))
  have pa: "impl_data (tensors (snd (mul_treat_as_1d_mem c place s a b out)) out) =
      impl_data (tensors s1 out)"
    unfolding m by simp
  have na: "numel_at (snd (mul_treat_as_1d_mem c place s a b out)) out =
      prod_list (impl_sizes (tensors s a))"
    unfolding m using r(1) by (simp add: numel_at_def)
  note sepa = assms(5) [unfolded na pa] and sepb = assms(6) [unfolded na pa]
  have indep: "\<forall>i<prod_list (impl_sizes (tensors s a)). \<forall>m'.
      (\<forall>x. x \<notin> ?W \<longrightarrow> m' x = cells s x) \<longrightarrow> ?rd i m' = ?rd i (cells s)"
  proof (intro allI impI)
    fix i m'
    assume i: "i < prod_list (impl_sizes (tensors s a))"
      and a: "\<forall>x. x \<notin> ?W \<longrightarrow> m' x = cells s x"
    have "m' (impl_data (tensors s a) + i) = cells s (impl_data (tensors s a) + i)"
      using separate_read [OF sepa a] i by (simp add: numel_at_def)
    moreover have "m' (impl_data (tensors s b) + i) = cells s (impl_data (tensors s b) + i)"
      using separate_read [OF sepb a] i nb by simp
    ultimately show "?rd i m' = ?rd i (cells s)" by simp
  qed
  have p: "mul_treat_as_1d c (tensor_of s a) (tensor_of s b) (tensor_of s out) =
      Inr ((tensor_of s out)\<lparr>sizes := impl_sizes (tensors s a),
             data := map ?val [0..<prod_list (impl_sizes (tensors s a))]\<rparr>)"
    using assms(1) True
    by (simp add: mul_treat_as_1d_eq numel_at_def)
  show ?thesis
    unfolding m p same_outcome_def
    using store_result_tensor [OF s1 vals indep] by simp
qed

lemma mul_broadcast_2d_by_1d_eq:
  assumes "scalar_type out \<noteq> HalfT"
    and "lhs = (if p = kBroadcast2dBy1dReverseArguments then b else a)"
    and "rhs = (if p = kBroadcast2dBy1dReverseArguments then a else b)"
  shows "mul_broadcast_2d_by_1d c p a b out =
     (if resize_ok c out (sizes lhs)
      then Inr (out\<lparr>sizes := sizes lhs,
             data := map (\<lambda>i. multiply c (scalar_type out) (data lhs ! i)
                                (data rhs ! (i mod (sizes lhs ! (dim lhs - 1)))))
                       [0..<sizes lhs ! (dim lhs - 2) * (sizes lhs ! (dim lhs - 1))]\<rparr>)
      else Inl InvalidArgument)"
  unfolding mul_broadcast_2d_by_1d_def Let_def assms(2) [symmetric] assms(3) [symmetric]
    broadcasting_map_2d_by_1d_def
    concat_rows [where g = "\<lambda>i j. multiply c (scalar_type out) (data lhs ! i) (data rhs ! j)"]
  using assms(1) by (simp add: resize_tensor_def ET_SWITCH_REALB del: One_nat_def)

lemma mul_broadcast_2d_by_1d_mem_separate:
  assumes "l = (if p = kBroadcast2dBy1dReverseArguments then b else a)"
    and "v = (if p = kBroadcast2dBy1dReverseArguments then a else b)"
    and "impl_type (tensors s out) \<noteq> HalfT"
    and "length (strip_leading_1s (impl_sizes (tensors s l))) = 2"
    and "length (strip_leading_1s (impl_sizes (tensors s v))) = 1"
    and "strip_leading_1s (impl_sizes (tensors s l)) ! 1 =
         strip_leading_1s (impl_sizes (tensors s v)) ! 0"
    and "l \<noteq> out" and "v \<noteq> out"
    and "{impl_data (tensors s l) ..< impl_data (tensors s l) + numel_at s l} \<inter>
         {impl_data (tensors (snd (mul_broadcast_2d_by_1d_mem c place p s a b out)) out) ..<
            impl_data (tensors (snd (mul_broadcast_2d_by_1d_mem c place p s a b out)) out) +
            numel_at (snd (mul_broadcast_2d_by_1d_mem c place p s a b out)) out} = {}"
    and "{impl_data (tensors s v) ..< impl_data (tensors s v) + numel_at s v} \<inter>
         {impl_data (tensors (snd (mul_broadcast_2d_by_1d_mem c place p s a b out)) out) ..<
            impl_data (tensors (snd (mul_broadcast_2d_by_1d_mem c place p s a b out)) out) +
            numel_at (snd (mul_broadcast_2d_by_1d_mem c place p s a b out)) out} = {}"
  shows "same_outcome (mul_broadcast_2d_by_1d_mem c place p s a b out) out
           (mul_broadcast_2d_by_1d c p (tensor_of s a) (tensor_of s b) (tensor_of s out))"
proof -
  have L: "tensor_of s l =
      (if p = kBroadcast2dBy1dReverseArguments then tensor_of s b else tensor_of s a)"
    using assms(1) by auto
  have V: "tensor_of s v =
      (if p = kBroadcast2dBy1dReverseArguments then tensor_of s a else tensor_of s b)"
    using assms(2) by auto
  have T: "scalar_type (tensor_of s out) \<noteq> HalfT"
    using assms(3) by simp
  note pe = mul_broadcast_2d_by_1d_eq [OF T L V, of c]
  show ?thesis
  proof (cases "resize_ok c (tensor_of s out) (impl_sizes (tensors s l))")
  case False
  have "mul_broadcast_2d_by_1d_mem c place p s a b out = (Some InvalidArgument, s)"
    unfolding mul_broadcast_2d_by_1d_mem_def Let_def assms(1) [symmetric]
    by (simp add: resize_tensor_mem_None [OF False])
  moreover have "mul_broadcast_2d_by_1d c p (tensor_of s a) (tensor_of s b) (tensor_of s out) =
      Inl InvalidArgument"
    unfolding pe using False by simp
  ultimately show ?thesis by (simp add: same_outcome_def)
next
  case True
  then obtain s1 where s1: "resize_tensor_mem c place s out (impl_sizes (tensors s l)) = Some s1"
    using resize_tensor_mem_ok by blast
  note r = resize_tensor_mem_Some [OF s1]
  define R where "R = impl_sizes (tensors s l) ! (length (impl_sizes (tensors s l)) - 2)"
  define C where "C = impl_sizes (tensors s l) ! (length (impl_sizes (tensors s l)) - 1)"
  define f where "f = multiply c (impl_type (tensors s out))"
  define pl where "pl = impl_data (tensors s l)"
  define pv where "pv = impl_data (tensors s v)"
  let ?W = "{impl_data (tensors s1 out) ..<
      impl_data (tensors s1 out) + prod_list (impl_sizes (tensors s l))}"
  let ?rd = "\<lambda>i m. f (m (pl + i)) (m (pv + i mod C))"
  let ?val = "\<lambda>i. f (data (tensor_of s l) ! i) (data (tensor_of s v) ! (i mod C))"
  have nl: "numel_at s l = R * C" and nv: "numel_at s v = C"
    using matrix_vector_numel(3,4) [of "tensor_of s l" "tensor_of s v"] assms(4,5,6)
    by (simp_all add: R_def C_def dim_def del: One_nat_def)
  have pn: "prod_list (impl_sizes (tensors s l)) = R * C"
    using nl by (simp add: numel_at_def)
  have modC: "i mod C < C" if "i < R * C" for i
    using that by (cases "C = 0") simp_all
  have vals: "\<forall>i<prod_list (impl_sizes (tensors s l)). ?rd i (cells s) = ?val i"
    unfolding pn using nl nv modC
    by (simp add: data_tensor_of_nth pl_def pv_def)
  have ls: "impl_sizes (tensors s1 l) = impl_sizes (tensors s l)"
    "impl_data (tensors s1 l) = pl" "impl_data (tensors s1 v) = pv"
    using r(6) [of l] r(6) [of v] assms(7,8) by (simp_all add: pl_def pv_def)
  have n1: "numel_at s1 out = R * C"
    using r(1) pn by simp
  have t1: "impl_type (tensors s out) \<noteq> HalfT" by (rule assms(3))
  have m: "mul_broadcast_2d_by_1d_mem c place p s a b out =
      (None, s1\<lparr>cells := seq_store (impl_data (tensors s1 out))
                  (map (\<lambda>i. (i, ?rd i)) [0..<numel_at s1 out]) (cells s1)\<rparr>)"
    unfolding mul_broadcast_2d_by_1d_mem_def Let_def assms(1) [symmetric]
      assms(2) [symmetric] s1 option.case ET_SWITCH_mem_REALB [OF t1]
      broadcasting_map_2d_by_1d_mem_def ls R_def [symmetric] C_def [symmetric]
      f_def [symmetric] n1
      concat_rows [where g = "\<lambda>i j. (i, \<lambda>m. f (m (pl + i)) (m (pv + j)))"]
    ..
  have pa: "impl_data (tensors (snd (mul_broadcast_2d_by_1d_mem c place p s a b out)) out) =
      impl_data (tensors s1 out)"
    unfolding m by simp
  have na: "numel_at (snd (mul_broadcast_2d_by_1d_mem c place p s a b out)) out =
      prod_list (impl_sizes (tensors s l))"
    unfolding m using r(1) by (simp add: numel_at_def)
  note sepl = assms(9) [unfolded na pa] and sepv = assms(10) [unfolded na pa]
  have indep: "\<forall>i<prod_list (impl_sizes (tensors s l)). \<forall>m'.
      (\<forall>x. x \<notin> ?W \<longrightarrow> m' x = cells s x) \<longrightarrow> ?rd i m' = ?rd i (cells s)"
  proof (intro allI impI)
    fix i m'
    assume i: "i < prod_list (impl_sizes (tensors s l))"
      and a: "\<forall>x. x \<notin> ?W \<longrightarrow> m' x = cells s x"
    have "m' (pl + i) = cells s (pl + i)"
      unfolding pl_def
      using separate_read [OF sepl a] i by (simp add: numel_at_def)
    moreover have "m' (pv + i mod C) = cells s (pv + i mod C)"
      unfolding pv_def
      using separate_read [OF sepv a] i modC nv pn by simp
    ultimately show "?rd i m' = ?rd i (cells s)" by simp
  qed
  have p: "mul_broadcast_2d_by_1d c p (tensor_of s a) (tensor_of s b) (tensor_of s out) =
      Inr ((tensor_of s out)\<lparr>sizes := impl_sizes (tensors s l),
             data := map ?val [0..<prod_list (impl_sizes (tensors s l))]\<rparr>)"
    unfolding pn pe
    using True by (simp add: R_def C_def f_def dim_def del: One_nat_def)
  show ?thesis
    unfolding m p same_outcome_def
    using store_result_tensor [OF s1 vals indep] by simp
  qed
qed

lemma mul_general_mem_separate:
  assumes "a \<noteq> out" and "b \<noteq> out"
    and "{impl_data (tensors s a) ..< impl_data (tensors s a) + numel_at s a} \<inter>
         {impl_data (tensors (snd (mul_general_mem c place s a b out)) out) ..<
            impl_data (tensors (snd (mul_general_mem c place s a b out)) out) +
            numel_at (snd (mul_general_mem c place s a b out)) out} = {}"
    and "{impl_data (tensors s b) ..< impl_data (tensors s b) + numel_at s b} \<inter>
         {impl_data (tensors (snd (mul_general_mem c place s a b out)) out) ..<
            impl_data (tensors (snd (mul_general_mem c place s a b out)) out) +
            numel_at (snd (mul_general_mem c place s a b out)) out} = {}"
  shows "same_outcome (mul_general_mem c place s a b out) out
           (mul_general c (tensor_of s a) (tensor_of s b) (tensor_of s out))"
proof -
  define ct where "ct = promoteTypes c (impl_type (tensors s a)) (impl_type (tensors s b)) True"
  define F where "F = (\<lambda>x y. static_cast c ct (impl_type (tensors s out))
      (multiply c ct (static_cast c (impl_type (tensors s a)) ct x)
         (static_cast c (impl_type (tensors s b)) ct y)))"
  note pe = mul_general_eq [of c "tensor_of s a" "tensor_of s b" "tensor_of s out"]
  consider (nocast) "\<not> canCast c ct (impl_type (tensors s out))"
    | (noshape) "canCast c ct (impl_type (tensors s out))"
        "get_broadcast_target_size (impl_sizes (tensors s a)) (impl_sizes (tensors s b)) = None"
    | (noresize) target where "canCast c ct (impl_type (tensors s out))"
        "get_broadcast_target_size (impl_sizes (tensors s a)) (impl_sizes (tensors s b)) =
           Some target"
        "\<not> resize_ok c (tensor_of s out) target"
    | (run) target where "canCast c ct (impl_type (tensors s out))"
        "get_broadcast_target_size (impl_sizes (tensors s a)) (impl_sizes (tensors s b)) =
           Some target"
        "resize_ok c (tensor_of s out) target"
    by (cases "get_broadcast_target_size (impl_sizes (tensors s a)) (impl_sizes (tensors s b))")
      auto
  then show ?thesis
  proof cases
    case nocast
    then show ?thesis
      unfolding pe by (simp add: mul_general_mem_def ct_def same_outcome_def)
  next
    case noshape
    then show ?thesis
      unfolding pe
      by (simp add: mul_general_mem_def resize_to_broadcast_target_size_mem_def ct_def
          same_outcome_def)
  next
    case noresize
    then show ?thesis
      unfolding pe
      by (simp add: mul_general_mem_def resize_to_broadcast_target_size_mem_def ct_def
          resize_tensor_mem_None same_outcome_def)
  next
    case run
    obtain s1 where s1: "resize_tensor_mem c place s out target = Some s1"
      using resize_tensor_mem_ok [OF run(3)] by blast
    note r = resize_tensor_mem_Some [OF s1]
    let ?W = "{impl_data (tensors s1 out) ..< impl_data (tensors s1 out) + prod_list target}"
    let ?rd = "\<lambda>i m. F
        (m (impl_data (tensors s a) + linearize_access_indexes target (impl_sizes (tensors s a)) i))
        (m (impl_data (tensors s b) + linearize_access_indexes target (impl_sizes (tensors s b)) i))"
    let ?val = "\<lambda>i. F
        (data (tensor_of s a) ! linearize_access_indexes target (impl_sizes (tensors s a)) i)
        (data (tensor_of s b) ! linearize_access_indexes target (impl_sizes (tensors s b)) i)"
    have idx: "linearize_access_indexes target (impl_sizes (tensors s a)) i < numel_at s a"
      "linearize_access_indexes target (impl_sizes (tensors s b)) i < numel_at s b"
      if "i < prod_list target" for i
      using linearize_access_indexes_less [OF run(2) that] by (simp_all add: numel_at_def)
    have rs: "resize_to_broadcast_target_size_mem c place s a b out = Some s1"
      by (simp add: resize_to_broadcast_target_size_mem_def run(2) s1)
    have m: "mul_general_mem c place s a b out =
        (None, s1\<lparr>cells := seq_store (impl_data (tensors s1 out))
                    (map (\<lambda>i. (i, ?rd i)) [0..<numel_at s1 out]) (cells s1)\<rparr>)"
      using run(1) assms(1,2)
      by (simp add: mul_general_mem_def rs ET_SWITCH_mem_REALHB
          apply_binary_elementwise_fn_mem_def ct_def [symmetric] F_def r(2) r(6))
    have pa: "impl_data (tensors (snd (mul_general_mem c place s a b out)) out) =
        impl_data (tensors s1 out)"
      unfolding m by simp
    have na: "numel_at (snd (mul_general_mem c place s a b out)) out = prod_list target"
      unfolding m using r(1) by (simp add: numel_at_def)
    note sepa = assms(3) [unfolded na pa] and sepb = assms(4) [unfolded na pa]
    have vals: "\<forall>i<prod_list target. ?rd i (cells s) = ?val i"
      using idx by (simp add: data_tensor_of_nth)
    have indep: "\<forall>i<prod_list target. \<forall>m'.
        (\<forall>x. x \<notin> ?W \<longrightarrow> m' x = cells s x) \<longrightarrow> ?rd i m' = ?rd i (cells s)"
    proof (intro allI impI)
      fix i m'
      assume i: "i < prod_list target" and a: "\<forall>x. x \<notin> ?W \<longrightarrow> m' x = cells s x"
      show "?rd i m' = ?rd i (cells s)"
        using separate_read [OF sepa a idx(1) [OF i]] separate_read [OF sepb a idx(2) [OF i]]
        by simp
    qed
    have p: "mul_general c (tensor_of s a) (tensor_of s b) (tensor_of s out) =
        Inr ((tensor_of s out)\<lparr>sizes := target, data := map ?val [0..<prod_list target]\<rparr>)"
      unfolding pe using run by (simp add: ct_def [symmetric] F_def)
    show ?thesis
      unfolding m p same_outcome_def
      using store_result_tensor [OF s1 vals indep] by simp
  qed
qed

lemma mul_dispatch_mem_separate:
  assumes "a \<noteq> out" and "b \<noteq> out"
    and "{impl_data (tensors s a) ..< impl_data (tensors s a) + numel_at s a} \<inter>
         {impl_data (tensors (snd (mul_dispatch_mem c place s a b out)) out) ..<
            impl_data (tensors (snd (mul_dispatch_mem c place s a b out)) out) +
            numel_at (snd (mul_dispatch_mem c place s a b out)) out} = {}"
    and "{impl_data (tensors s b) ..< impl_data (tensors s b) + numel_at s b} \<inter>
         {impl_data (tensors (snd (mul_dispatch_mem c place s a b out)) out) ..<
            impl_data (tensors (snd (mul_dispatch_mem c place s a b out)) out) +
            numel_at (snd (mul_dispatch_mem c place s a b out)) out} = {}"
  shows "same_outcome (mul_dispatch_mem c place s a b out) out
           (mul_dispatch c (tensor_of s a) (tensor_of s b) (tensor_of s out))"
proof (cases "select_optimized_path (tensor_of s a) (tensor_of s b) (tensor_of s out)")
  case kNone
  have m: "mul_dispatch_mem c place s a b out = mul_general_mem c place s a b out"
    by (simp add: mul_dispatch_mem_def kNone)
  have p: "mul_dispatch c (tensor_of s a) (tensor_of s b) (tensor_of s out) =
      mul_general c (tensor_of s a) (tensor_of s b) (tensor_of s out)"
    by (simp add: mul_dispatch_def kNone)
  show ?thesis
    unfolding m p
    by (rule mul_general_mem_separate [OF assms(1,2) assms(3,4) [unfolded m]])
next
  case kTreatAs1d
  have m: "mul_dispatch_mem c place s a b out = mul_treat_as_1d_mem c place s a b out"
    by (simp add: mul_dispatch_mem_def kTreatAs1d)
  have p: "mul_dispatch c (tensor_of s a) (tensor_of s b) (tensor_of s out) =
      mul_treat_as_1d c (tensor_of s a) (tensor_of s b) (tensor_of s out)"
    by (simp add: mul_dispatch_def kTreatAs1d)
  have n: "numel_at s a = numel_at s b" and t: "impl_type (tensors s out) \<noteq> HalfT"
    using select_treat_as_1d_numel [OF kTreatAs1d] by simp_all
  show ?thesis
    unfolding m p
    by (rule mul_treat_as_1d_mem_separate [OF t n assms(1,2) assms(3,4) [unfolded m]])
next
  case kBroadcast2dBy1d
  have m: "mul_dispatch_mem c place s a b out =
      mul_broadcast_2d_by_1d_mem c place kBroadcast2dBy1d s a b out"
    by (simp add: mul_dispatch_mem_def kBroadcast2dBy1d)
  have p: "mul_dispatch c (tensor_of s a) (tensor_of s b) (tensor_of s out) =
      mul_broadcast_2d_by_1d c kBroadcast2dBy1d (tensor_of s a) (tensor_of s b)
        (tensor_of s out)"
    by (simp add: mul_dispatch_def kBroadcast2dBy1d)
  note sh = select_broadcast_shapes [OF kBroadcast2dBy1d, simplified]
  have t: "impl_type (tensors s out) \<noteq> HalfT" using sh(2,3) by simp
  show ?thesis
    unfolding m p
    by (rule mul_broadcast_2d_by_1d_mem_separate
        [where l = a and v = b, OF _ _ t _ _ _ assms(1,2) assms(3,4) [unfolded m]])
      (use sh in simp_all)
next
  case kBroadcast2dBy1dReverseArguments
  have m: "mul_dispatch_mem c place s a b out =
      mul_broadcast_2d_by_1d_mem c place kBroadcast2dBy1dReverseArguments s a b out"
    by (simp add: mul_dispatch_mem_def kBroadcast2dBy1dReverseArguments)
  have p: "mul_dispatch c (tensor_of s a) (tensor_of s b) (tensor_of s out) =
      mul_broadcast_2d_by_1d c kBroadcast2dBy1dReverseArguments (tensor_of s a)
        (tensor_of s b) (tensor_of s out)"
    by (simp add: mul_dispatch_def kBroadcast2dBy1dReverseArguments)
  note sh = select_broadcast_reverse_shapes [OF kBroadcast2dBy1dReverseArguments, simplified]
  have t: "impl_type (tensors s out) \<noteq> HalfT" using sh(2,3) by simp
  show ?thesis
    unfolding m p
    by (rule mul_broadcast_2d_by_1d_mem_separate
        [where l = b and v = a, OF _ _ t _ _ _ assms(2,1) assms(4,3) [unfolded m]])
      (use sh in simp_all)
qed

lemma opt_mul_out_mem_separate_no_swap:
  assumes "numel_at s b = 1 \<or> numel_at s a \<noteq> 1"
    and "a \<noteq> out" and "b \<noteq> out"
    and "{impl_data (tensors s a) ..< impl_data (tensors s a) + numel_at s a} \<inter>
         {impl_data (tensors (snd (opt_mul_out_mem c place s a b out)) out) ..<
            impl_data (tensors (snd (opt_mul_out_mem c place s a b out)) out) +
            numel_at (snd (opt_mul_out_mem c place s a b out)) out} = {}"
    and "{impl_data (tensors s b) ..< impl_data (tensors s b) + numel_at s b} \<inter>
         {impl_data (tensors (snd (opt_mul_out_mem c place s a b out)) out) ..<
            impl_data (tensors (snd (opt_mul_out_mem c place s a b out)) out) +
            numel_at (snd (opt_mul_out_mem c place s a b out)) out} = {}"
  shows "same_outcome (opt_mul_out_mem c place s a b out) out
           (opt_mul_out c (tensor_of s a) (tensor_of s b) (tensor_of s out))"
proof (cases "numel_at s b = 1 \<and> impl_type (tensors s a) = impl_type (tensors s b) \<and>
         impl_type (tensors s a) = impl_type (tensors s out) \<and>
         impl_type (tensors s a) \<noteq> HalfT")
  case True
  have m: "opt_mul_out_mem c place s a b out = mul_scalar_tensor_path_mem c place s a b out"
    unfolding opt_mul_out_mem_no_swap [OF assms(1)] if_P [OF True] ..
  have p: "opt_mul_out c (tensor_of s a) (tensor_of s b) (tensor_of s out) =
      mul_scalar_tensor_path c (tensor_of s a) (tensor_of s b) (tensor_of s out)"
    using True by (intro opt_mul_out_scalar) auto
  show ?thesis
    unfolding m p
    using True
    by (intro mul_scalar_tensor_path_mem_separate assms(2,3) assms(4) [unfolded m]) auto
next
  case False
  have m: "opt_mul_out_mem c place s a b out = mul_dispatch_mem c place s a b out"
    unfolding opt_mul_out_mem_no_swap [OF assms(1)] if_not_P [OF False] ..
  have p: "opt_mul_out c (tensor_of s a) (tensor_of s b) (tensor_of s out) =
      mul_dispatch c (tensor_of s a) (tensor_of s b) (tensor_of s out)"
    using False assms(1) by (intro opt_mul_out_no_swap) auto
  show ?thesis
    unfolding m p
    by (rule mul_dispatch_mem_separate [OF assms(2,3) assms(4,5) [unfolded m]])
qed

lemma opt_mul_out_mem_separate:
  assumes "a \<noteq> out" and "b \<noteq> out"
    and "{impl_data (tensors s a) ..< impl_data (tensors s a) + numel_at s a} \<inter>
         {impl_data (tensors (snd (opt_mul_out_mem c place s a b out)) out) ..<
            impl_data (tensors (snd (opt_mul_out_mem c place s a b out)) out) +
            numel_at (snd (opt_mul_out_mem c place s a b out)) out} = {}"
    and "{impl_data (tensors s b) ..< impl_data (tensors s b) + numel_at s b} \<inter>
         {impl_data (tensors (snd (opt_mul_out_mem c place s a b out)) out) ..<
            impl_data (tensors (snd (opt_mul_out_mem c place s a b out)) out) +
            numel_at (snd (opt_mul_out_mem c place s a b out)) out} = {}"
  shows "same_outcome (opt_mul_out_mem c place s a b out) out
           (opt_mul_out c (tensor_of s a) (tensor_of s b) (tensor_of s out))"
proof (cases "numel_at s b = 1 \<or> numel_at s a \<noteq> 1")
  case True
  then show ?thesis
    using assms by (rule opt_mul_out_mem_separate_no_swap)
next
  case False
  then have sw: "numel_at s b \<noteq> 1" "numel_at s a = 1" by simp_all
  have m: "opt_mul_out_mem c place s a b out = opt_mul_out_mem c place s b a out"
    using sw by (rule opt_mul_out_mem_swap)
  have p: "opt_mul_out c (tensor_of s a) (tensor_of s b) (tensor_of s out) =
      opt_mul_out c (tensor_of s b) (tensor_of s a) (tensor_of s out)"
    using sw by (intro opt_mul_out_swap) simp_all
  have n: "numel_at s a = 1 \<or> numel_at s b \<noteq> 1" using sw by simp
  show ?thesis
    unfolding m p
    by (rule opt_mul_out_mem_separate_no_swap
        [OF n assms(2,1) assms(4,3) [unfolded m]])
qed

lemma opt_mul_scalar_out_mem_separate:
  assumes "a \<noteq> out"
    and "{impl_data (tensors s a) ..< impl_data (tensors s a) + numel_at s a} \<inter>
         {impl_data (tensors (snd (opt_mul_scalar_out_mem c place s a b out)) out) ..<
            impl_data (tensors (snd (opt_mul_scalar_out_mem c place s a b out)) out) +
            numel_at (snd (opt_mul_scalar_out_mem c place s a b out)) out} = {}"
  shows "same_outcome (opt_mul_scalar_out_mem c place s a b out) out
           (opt_mul_scalar_out c (tensor_of s a) b (tensor_of s out))"
proof -
  define ta where "ta = impl_type (tensors s a)"
  define ot where "ot = impl_type (tensors s out)"
  define bt where "bt = get_scalar_dtype b"
  define ct0 where "ct0 = promote_type_with_scalar c ta b False"
  define ct where "ct = (if ct0 = HalfT then FloatT else ct0)"
  define fast where "fast = (ta = ct \<and> ta = ot \<and> ta \<noteq> HalfT)"
  define G where "G = (if fast
      then (\<lambda>x. multiply c ta x (static_cast c bt ta (extract_scalar b)))
      else (\<lambda>x. static_cast c ct ot
                  (multiply c ct (static_cast c ta ct x)
                     (static_cast c bt ct (extract_scalar b)))))"
  have cth: "ct \<noteq> HalfT" by (simp add: ct_def)
  consider (check) "ct0 \<noteq> ot"
    | (noresize) "ct0 = ot" "\<not> resize_ok c (tensor_of s out) (impl_sizes (tensors s a))"
    | (run) "ct0 = ot" "resize_ok c (tensor_of s out) (impl_sizes (tensors s a))"
    by blast
  then show ?thesis
  proof cases
    case check
    then show ?thesis
      by (simp add: opt_mul_scalar_out_mem_def opt_mul_scalar_out_def same_outcome_def
          ct0_def ta_def ot_def)
  next
    case noresize
    then show ?thesis
      by (simp add: opt_mul_scalar_out_mem_def opt_mul_scalar_out_def same_outcome_def
          ct0_def ta_def ot_def Let_def resize_tensor_mem_None resize_tensor_def)
  next
    case run
    obtain s1 where s1: "resize_tensor_mem c place s out (impl_sizes (tensors s a)) = Some s1"
      using resize_tensor_mem_ok [OF run(2)] by blast
    note r = resize_tensor_mem_Some [OF s1]
    let ?W = "{impl_data (tensors s1 out) ..<
        impl_data (tensors s1 out) + prod_list (impl_sizes (tensors s a))}"
    let ?rd = "\<lambda>i m. G (m (impl_data (tensors s a) + i))"
    let ?val = "\<lambda>i. G (data (tensor_of s a) ! i)"
    have n1: "numel_at s1 a = numel_at s1 out"
      using r(1) r(6) [of a] assms(1) by (simp add: numel_at_def)
    have m: "opt_mul_scalar_out_mem c place s a b out =
        (None, s1\<lparr>cells := seq_store (impl_data (tensors s1 out))
                    (map (\<lambda>i. (i, ?rd i)) [0..<numel_at s1 out]) (cells s1)\<rparr>)"
    proof (cases fast)
      case True
      then have h: "ta \<noteq> HalfT" by (auto simp: fast_def)
      show ?thesis
        using True run(1) assms(1) h cth
        unfolding opt_mul_scalar_out_mem_def Let_def ta_def [symmetric] ot_def [symmetric]
          bt_def [symmetric] ct0_def [symmetric] ct_def [symmetric] fast_def [symmetric]
          s1 option.case
        by (simp add: ET_SWITCH_mem_REALB ET_SWITCH_mem_SCALAR_OBJ [of b, folded bt_def]
            vec_map_mem_def G_def r(6))
    next
      case False
      show ?thesis
        using False run(1) assms(1) cth
        unfolding opt_mul_scalar_out_mem_def Let_def ta_def [symmetric] ot_def [symmetric]
          bt_def [symmetric] ct0_def [symmetric] ct_def [symmetric] fast_def [symmetric]
          s1 option.case n1
        by (simp add: ET_SWITCH_mem_REALB ET_SWITCH_mem_REALHB
            ET_SWITCH_mem_SCALAR_OBJ [of b, folded bt_def] G_def r(6))
    qed
    have pa: "impl_data (tensors (snd (opt_mul_scalar_out_mem c place s a b out)) out) =
        impl_data (tensors s1 out)"
      unfolding m by simp
    have na: "numel_at (snd (opt_mul_scalar_out_mem c place s a b out)) out =
        prod_list (impl_sizes (tensors s a))"
      unfolding m using r(1) by (simp add: numel_at_def)
    note sepa = assms(2) [unfolded na pa]
    have vals: "\<forall>i<prod_list (impl_sizes (tensors s a)). ?rd i (cells s) = ?val i"
      by (simp add: data_tensor_of_nth numel_at_def)
    have indep: "\<forall>i<prod_list (impl_sizes (tensors s a)). \<forall>m'.
        (\<forall>x. x \<notin> ?W \<longrightarrow> m' x = cells s x) \<longrightarrow> ?rd i m' = ?rd i (cells s)"
    proof (intro allI impI)
      fix i m'
      assume i: "i < prod_list (impl_sizes (tensors s a))"
        and a: "\<forall>x. x \<notin> ?W \<longrightarrow> m' x = cells s x"
      show "?rd i m' = ?rd i (cells s)"
        using separate_read [OF sepa a] i by (simp add: numel_at_def)
    qed
    have p: "opt_mul_scalar_out c (tensor_of s a) b (tensor_of s out) =
        Inr ((tensor_of s out)\<lparr>sizes := impl_sizes (tensors s a),
               data := map ?val [0..<prod_list (impl_sizes (tensors s a))]\<rparr>)"
    proof (cases fast)
      case True
      then have h: "ta \<noteq> HalfT" by (auto simp: fast_def)
      show ?thesis
        using True run h cth
        unfolding opt_mul_scalar_out_def Let_def scalar_type_tensor_of sizes_tensor_of
          ta_def [symmetric] ot_def [symmetric]
          bt_def [symmetric] ct0_def [symmetric] ct_def [symmetric] fast_def [symmetric]
        by (simp add: resize_tensor_def ET_SWITCH_REALB
            ET_SWITCH_SCALAR_OBJ [of b, folded bt_def] vec_map_def G_def numel_resized)
    next
      case False
      show ?thesis
        using False run cth
        unfolding opt_mul_scalar_out_def Let_def scalar_type_tensor_of sizes_tensor_of
          ta_def [symmetric] ot_def [symmetric]
          bt_def [symmetric] ct0_def [symmetric] ct_def [symmetric] fast_def [symmetric]
        by (simp add: resize_tensor_def ET_SWITCH_REALB ET_SWITCH_REALHB
            ET_SWITCH_SCALAR_OBJ [of b, folded bt_def] G_def numel_at_def)
    qed
    show ?thesis
      unfolding m p same_outcome_def
      using store_result_tensor [OF s1 vals indep] by simp
  qed
qed

section \<open>Frame\<close>

text \<open>
  C10, as amended. For every call of either operator, on success or failure, with \<open>r\<close>
  its outcome: every tensor object other than the output object keeps its shape, its
  type and its data pointer; the output object keeps its type; and every element cell
  outside the output's buffer, as the buffer is after the call, keeps its value. Hence
  an input tensor that is not the output object and whose buffer does not overlap the
  output's buffer is left unchanged, shape and elements. Only the shape and data
  pointer of the output object and the cells of its buffer are modified. The scalar
  argument is passed by value.
\<close>

theorem opt_mul_writes_only_output:
  assumes "r = opt_mul_out_mem c place s a b out \<or>
           r = opt_mul_scalar_out_mem c place s a scalar out"
  shows "(\<forall>p. p \<noteq> out \<longrightarrow> tensors (snd r) p = tensors s p)
       \<and> impl_type (tensors (snd r) out) = impl_type (tensors s out)
       \<and> (\<forall>x. x \<notin> {impl_data (tensors (snd r) out) ..<
                      impl_data (tensors (snd r) out) + numel_at (snd r) out}
              \<longrightarrow> cells (snd r) x = cells s x)
       \<and> (\<forall>p. p \<noteq> out \<and>
                {impl_data (tensors s p) ..< impl_data (tensors s p) + numel_at s p} \<inter>
                {impl_data (tensors (snd r) out) ..<
                   impl_data (tensors (snd r) out) + numel_at (snd r) out} = {}
              \<longrightarrow> tensor_of (snd r) p = tensor_of s p)"
proof -
  have f: "only_output_modified s (snd r) out"
    using assms opt_mul_out_mem_frame opt_mul_scalar_out_mem_frame by metis
  show ?thesis
    using f unchanged_tensor [OF f]
    unfolding only_output_modified_def by blast
qed

theorem opt_mul_writes_only_output_witness:
  "fst (opt_mul_out_mem exact_env keep_buffer ex_mem 10 12 14) = None
   \<and> tensor_of (snd (opt_mul_out_mem exact_env keep_buffer ex_mem 10 12 14)) 14 =
       \<lparr>sizes = [2, 2], scalar_type = IntT, data = [10, 20, 30, 40]\<rparr>
   \<and> tensor_of (snd (opt_mul_out_mem exact_env keep_buffer ex_mem 10 12 14)) 10 =
       \<lparr>sizes = [2, 2], scalar_type = IntT, data = [1, 2, 3, 4]\<rparr>
   \<and> tensor_of (snd (opt_mul_out_mem exact_env keep_buffer ex_mem 10 12 14)) 12 =
       \<lparr>sizes = [1, 1], scalar_type = IntT, data = [10]\<rparr>
   \<and> fst (opt_mul_scalar_out_mem exact_env keep_buffer ex_mem 10 (IntScalar 3) 14) = None
   \<and> tensor_of (snd (opt_mul_scalar_out_mem exact_env keep_buffer ex_mem 10 (IntScalar 3) 14)) 14 =
       \<lparr>sizes = [2, 2], scalar_type = IntT, data = [3, 6, 9, 12]\<rparr>
   \<and> tensor_of (snd (opt_mul_scalar_out_mem exact_env keep_buffer ex_mem 10 (IntScalar 3) 14)) 10 =
       \<lparr>sizes = [2, 2], scalar_type = IntT, data = [1, 2, 3, 4]\<rparr>"
proof -
  let ?r = "opt_mul_out_mem exact_env keep_buffer ex_mem 10 12 14"
  let ?q = "opt_mul_scalar_out_mem exact_env keep_buffer ex_mem 10 (IntScalar 3) 14"
  have o: "impl_data (tensors (snd ?r) 14) = 300" "numel_at (snd ?r) 14 = 4"
    "impl_data (tensors (snd ?q) 14) = 300" "numel_at (snd ?q) 14 = 4"
    by code_simp+
  have i: "impl_data (tensors ex_mem 10) = 100" "numel_at ex_mem 10 = 4"
    "impl_data (tensors ex_mem 12) = 200" "numel_at ex_mem 12 = 1"
    by code_simp+
  have t: "tensor_of ex_mem 10 = \<lparr>sizes = [2, 2], scalar_type = IntT, data = [1, 2, 3, 4]\<rparr>"
    "tensor_of ex_mem 12 = \<lparr>sizes = [1, 1], scalar_type = IntT, data = [10]\<rparr>"
    by code_simp+
  have v: "fst ?r = None"
    "tensor_of (snd ?r) 14 = \<lparr>sizes = [2, 2], scalar_type = IntT, data = [10, 20, 30, 40]\<rparr>"
    "fst ?q = None"
    "tensor_of (snd ?q) 14 = \<lparr>sizes = [2, 2], scalar_type = IntT, data = [3, 6, 9, 12]\<rparr>"
    by code_simp+
  note f = opt_mul_writes_only_output
    [where r = ?r and c = exact_env and place = keep_buffer and s = ex_mem and a = 10
       and b = 12 and out = 14, OF disjI1 [OF refl]]
  note g = opt_mul_writes_only_output
    [where r = ?q and c = exact_env and place = keep_buffer and s = ex_mem and a = 10
       and scalar = "IntScalar 3" and out = 14, OF disjI2 [OF refl]]
  have a: "tensor_of (snd ?r) 10 = tensor_of ex_mem 10"
    by (rule f [THEN conjunct2, THEN conjunct2, THEN conjunct2, rule_format, of 10])
      (simp add: o i)
  have b: "tensor_of (snd ?r) 12 = tensor_of ex_mem 12"
    by (rule f [THEN conjunct2, THEN conjunct2, THEN conjunct2, rule_format, of 12])
      (simp add: o i)
  have a': "tensor_of (snd ?q) 10 = tensor_of ex_mem 10"
    by (rule g [THEN conjunct2, THEN conjunct2, THEN conjunct2, rule_format, of 10])
      (simp add: o i)
  show ?thesis
    unfolding a b a' t using v by simp
qed

text \<open>
  Without the conditions on the input, C10 fails: an input that shares its buffer with
  the output is overwritten. With the output object 11, another object than the input
  10 on the same buffer, the tensor-tensor operator replaces the elements [1, 2, 3, 4]
  of the input 10 by [10, 20, 30, 40] and the tensor-scalar operator replaces them by
  [3, 6, 9, 12]. With the vector 13 as both the right operand and the output object,
  the row broadcast changes the shape of the operand from [2] to [2, 2] and its
  elements from [10, 20] to [10, 40, 30, 160]: the second row is multiplied by the
  elements that the first row has stored.
\<close>

theorem opt_mul_overlapping_output_counterexample:
  "(10::nat) \<noteq> 11
   \<and> tensor_of ex_mem 10 = \<lparr>sizes = [2, 2], scalar_type = IntT, data = [1, 2, 3, 4]\<rparr>
   \<and> fst (opt_mul_out_mem exact_env keep_buffer ex_mem 10 12 11) = None
   \<and> tensor_of (snd (opt_mul_out_mem exact_env keep_buffer ex_mem 10 12 11)) 10 =
       \<lparr>sizes = [2, 2], scalar_type = IntT, data = [10, 20, 30, 40]\<rparr>
   \<and> fst (opt_mul_scalar_out_mem exact_env keep_buffer ex_mem 10 (IntScalar 3) 11) = None
   \<and> tensor_of (snd (opt_mul_scalar_out_mem exact_env keep_buffer ex_mem 10 (IntScalar 3) 11)) 10 =
       \<lparr>sizes = [2, 2], scalar_type = IntT, data = [3, 6, 9, 12]\<rparr>
   \<and> tensor_of ex_mem 13 = \<lparr>sizes = [2], scalar_type = IntT, data = [10, 20]\<rparr>
   \<and> fst (opt_mul_out_mem exact_env keep_buffer ex_mem 10 13 13) = None
   \<and> tensor_of (snd (opt_mul_out_mem exact_env keep_buffer ex_mem 10 13 13)) 13 =
       \<lparr>sizes = [2, 2], scalar_type = IntT, data = [10, 40, 30, 160]\<rparr>"
  by code_simp

end
